theory Spec2Isabelle
  imports Complex_Main "HOL-Library.Sublist"
begin

section \<open>Strings\<close>

text \<open>
  Source strings are sequences of code units; they are modelled as HOL strings, whose
  characters are the code units \<open>0\<close> to \<open>255\<close> (Latin-1). On these, \<open>trim\<close> strips from
  both ends the white space and line terminators of the source language: tab, line feed,
  vertical tab, form feed, carriage return, space and the no-break space \<open>0xA0\<close>;
  \<open>toLowerCase\<close> folds \<open>A\<close>..\<open>Z\<close> and the capitals \<open>0xC0\<close>..\<open>0xDE\<close> other than the
  multiplication sign \<open>0xD7\<close> to the letter 32 places above; \<open>includes_str\<close> is the
  substring test.
\<close>

definition dquote :: char where
  "dquote = CHR 0x22"

definition newline :: char where
  "newline = CHR 0x0A"

definition isWhiteSpace :: "char \<Rightarrow> bool" where
  "isWhiteSpace c =
     (c \<in> set [CHR 0x09, CHR 0x0A, CHR 0x0B, CHR 0x0C, CHR 0x0D, CHR '' '', CHR 0xA0])"

definition trim :: "string \<Rightarrow> string" where
  "trim s = rev (dropWhile isWhiteSpace (rev (dropWhile isWhiteSpace s)))"

definition toLowerChar :: "char \<Rightarrow> char" where
  "toLowerChar c =
     (let n = (of_char c :: nat) in
      if (65 \<le> n \<and> n \<le> 90) \<or> (192 \<le> n \<and> n \<le> 222 \<and> n \<noteq> 215)
      then char_of (n + 32) else c)"

definition toLowerCase :: "string \<Rightarrow> string" where
  "toLowerCase s = map toLowerChar s"

fun startsWith :: "string \<Rightarrow> string \<Rightarrow> bool" where
  "startsWith s [] = True"
| "startsWith [] (k # ks) = False"
| "startsWith (c # cs) (k # ks) = (c = k \<and> startsWith cs ks)"

fun includes_str :: "string \<Rightarrow> string \<Rightarrow> bool" where
  "includes_str [] k = (k = [])"
| "includes_str (c # cs) k = (startsWith (c # cs) k \<or> includes_str cs k)"

section \<open>The per-line tokenizer (\<open>parseCSVLine\<close>, csv.ts)\<close>

text \<open>
  The source scans the line by index \<open>i\<close>, with the fields pushed so far (\<open>result\<close>), the
  field being built (\<open>current\<close>) and the \<open>inQuotes\<close> flag. \<open>line[i + 1]\<close> is undefined
  past the end, so the look-ahead test is false there. The delimiter is a string: a
  character splits when the one-character string made of it equals the delimiter.
\<close>

function parseLoop ::
  "string \<Rightarrow> string \<Rightarrow> nat \<Rightarrow> string list \<Rightarrow> string \<Rightarrow> bool \<Rightarrow> string list" where
  "parseLoop line delimiter i result current inQuotes =
     (if i < length line then
        (if line ! i = dquote then
           (if inQuotes \<and> i + 1 < length line \<and> line ! (i + 1) = dquote
            then parseLoop line delimiter (i + 2) result (current @ [dquote]) inQuotes
            else parseLoop line delimiter (i + 1) result current (\<not> inQuotes))
         else if [line ! i] = delimiter \<and> \<not> inQuotes
           then parseLoop line delimiter (i + 1) (result @ [trim current]) [] inQuotes
           else parseLoop line delimiter (i + 1) result (current @ [line ! i]) inQuotes)
      else result @ [trim current])"
  by pat_completeness auto
termination
  by (relation "measure (\<lambda>(line, delimiter, i, result, current, inQuotes). length line - i)")
    auto

declare parseLoop.simps [simp del]

definition parseCSVLine :: "string \<Rightarrow> string \<Rightarrow> string list" where
  "parseCSVLine line delimiter = parseLoop line delimiter 0 [] [] False"

text \<open>
  The tokenizer as the specification words it, by recursion on the characters still to be
  read: \<open>tokenize d q cur rest\<close> with the delimiter \<open>d\<close>, the inside-quotes flag \<open>q\<close> and
  the field under construction \<open>cur\<close>. A double quote followed by another one while inside
  quotes emits one literal quote and consumes both; any other double quote toggles the
  flag; the delimiter closes the (trimmed) field when the flag is off; every other
  character is appended; the end of the line closes the last field.
\<close>

fun tokenize :: "string \<Rightarrow> bool \<Rightarrow> string \<Rightarrow> string \<Rightarrow> string list" where
  "tokenize d q cur [] = [trim cur]"
| "tokenize d q cur [c] =
     (if c = dquote then tokenize d (\<not> q) cur []
      else if [c] = d \<and> \<not> q then trim cur # tokenize d q [] []
      else tokenize d q (cur @ [c]) [])"
| "tokenize d q cur (c # c' # cs) =
     (if c = dquote then
        (if q \<and> c' = dquote then tokenize d q (cur @ [dquote]) cs
         else tokenize d (\<not> q) cur (c' # cs))
      else if [c] = d \<and> \<not> q then trim cur # tokenize d q [] (c' # cs)
      else tokenize d q (cur @ [c]) (c' # cs))"

section \<open>The fallback classifier (\<open>mockAnalysis\<close>, feedback.ts)\<close>

text \<open>
  A theme as the classifier builds it: title, summary and quotes. The optional impact and
  effort labels of the source's interface are absent from every object built here; the
  caller adds them from \<open>guessImpactEffort\<close>.
\<close>

record theme =
  title :: string
  summary :: string
  quotes :: "string list"

definition usabilityKeywords :: "string list" where
  "usabilityKeywords = [''confus'', ''find'', ''navigat'', ''unclear'', ''settings'', ''preferences'']"

definition designKeywords :: "string list" where
  "designKeywords = [''dark mode'', ''color'', ''beautiful'', ''design'', ''look'']"

definition performanceKeywords :: "string list" where
  "performanceKeywords = [''slow'', ''performance'', ''load'', ''crash'', ''forever'']"

definition featureKeywords :: "string list" where
  "featureKeywords = [''export'', ''download'', ''data'', ''csv'', ''feature'']"

definition visualKeywords :: "string list" where
  "visualKeywords = [''chart'', ''visualiz'', ''graph'', ''basic'']"

definition supportKeywords :: "string list" where
  "supportKeywords = [''support'', ''team'', ''help'', ''friendly'', ''responded'']"

text \<open>\<open>lines.filter(l => keywords.some(k => l.toLowerCase().includes(k)))\<close>\<close>

definition matching :: "string list \<Rightarrow> string list \<Rightarrow> string list" where
  "matching keywords lines =
     filter (\<lambda>l. list_ex (\<lambda>k. includes_str (toLowerCase l) k) keywords) lines"

text \<open>\<open>xs.slice(a, b)\<close> for indices \<open>0 \<le> a\<close>, \<open>0 \<le> b\<close>: empty when \<open>b \<le> a\<close> or \<open>a\<close> is past the end.\<close>

definition slice :: "nat \<Rightarrow> nat \<Rightarrow> 'a list \<Rightarrow> 'a list" where
  "slice a b xs = take (b - a) (drop a xs)"

text \<open>\<open>Math.ceil(n / 3)\<close> on a list length.\<close>

definition ceilThird :: "nat \<Rightarrow> nat" where
  "ceilThird n = (if n mod 3 = 0 then n div 3 else n div 3 + 1)"

text \<open>The decimal numeral of a number, as a template literal prints it.\<close>

definition digitChar :: "nat \<Rightarrow> char" where
  "digitChar d = char_of (48 + d)"

fun showNat :: "nat \<Rightarrow> string" where
  "showNat n = (if n < 10 then [digitChar n] else showNat (n div 10) @ [digitChar (n mod 10)])"

declare showNat.simps [simp del]

text \<open>
  The loop \<open>for (let i = 0; i < 3 && i * chunkSize < lines.length; i++)\<close> of the chunk
  branch, with the themes pushed so far.
\<close>

function chunkLoop :: "string list \<Rightarrow> nat \<Rightarrow> nat \<Rightarrow> theme list \<Rightarrow> theme list" where
  "chunkLoop lines chunkSize i themes =
     (if i < 3 \<and> i * chunkSize < length lines then
        (let chunk = slice (i * chunkSize) ((i + 1) * chunkSize) lines in
         chunkLoop lines chunkSize (i + 1)
           (if length chunk > 0
            then themes @ [\<lparr>title = ''Theme '' @ showNat (i + 1),
                            summary = ''User feedback grouped by similarity.'',
                            quotes = take 3 chunk\<rparr>]
            else themes))
      else themes)"
  by pat_completeness auto
termination
  by (relation "measure (\<lambda>(lines, chunkSize, i, themes). 3 - i)") auto

declare chunkLoop.simps [simp del]

text \<open>\<open>if (cond) { themes.push(t) }\<close>\<close>

definition pushIf :: "bool \<Rightarrow> theme \<Rightarrow> theme list \<Rightarrow> theme list" where
  "pushIf cond t themes = (if cond then themes @ [t] else themes)"

definition mockAnalysis :: "string list \<Rightarrow> theme list" where
  "mockAnalysis lines =
     (let usability = matching usabilityKeywords lines;
          design = matching designKeywords lines;
          performance = matching performanceKeywords lines;
          features = matching featureKeywords lines;
          visualization = matching visualKeywords lines;
          support = matching supportKeywords lines;
          themes = [];
          themes = pushIf (length usability \<ge> 2)
            \<lparr>title = ''Navigation and Usability Issues'',
             summary = ''Users struggle to find key features and navigate the interface effectively.'',
             quotes = take 3 usability\<rparr> themes;
          themes = pushIf (length design \<ge> 2)
            \<lparr>title = ''Positive Design Feedback'',
             summary = ''Users appreciate the visual design and aesthetic choices.'',
             quotes = take 3 design\<rparr> themes;
          themes = pushIf (length performance \<ge> 2)
            \<lparr>title = ''Performance and Stability Concerns'',
             summary = ''Users report slow loading times and reliability issues.'',
             quotes = take 3 performance\<rparr> themes;
          themes = pushIf (length features \<ge> 2)
            \<lparr>title = ''Export Functionality Praised'',
             summary = ''Users value the ability to export and download their data.'',
             quotes = take 3 features\<rparr> themes;
          themes = pushIf (length visualization \<ge> 2)
            \<lparr>title = ''Visualization Enhancement Requests'',
             summary = ''Users want more advanced charting and data visualization options.'',
             quotes = take 3 visualization\<rparr> themes;
          themes = pushIf (length support \<ge> 2)
            \<lparr>title = ''Customer Support Excellence'',
             summary = ''Users report positive experiences with customer support team.'',
             quotes = take 3 support\<rparr> themes;
          themes = (if length themes = 0
            then chunkLoop lines (ceilThird (length lines)) 0 themes
            else themes)
      in take 5 themes)"

text \<open>
  The classifier as the specification words it. The six buckets, in evaluation order, each
  with its keyword list and its canned title and summary; a bucket qualifies when at least
  two lines match it, and its theme quotes the first three matches. The chunk branch cuts
  the lines into three contiguous chunks of size \<open>ceil(n / 3)\<close> and emits one generic
  theme per non-empty chunk.
\<close>

definition buckets :: "(string list \<times> string \<times> string) list" where
  "buckets =
     [(usabilityKeywords, ''Navigation and Usability Issues'',
         ''Users struggle to find key features and navigate the interface effectively.''),
      (designKeywords, ''Positive Design Feedback'',
         ''Users appreciate the visual design and aesthetic choices.''),
      (performanceKeywords, ''Performance and Stability Concerns'',
         ''Users report slow loading times and reliability issues.''),
      (featureKeywords, ''Export Functionality Praised'',
         ''Users value the ability to export and download their data.''),
      (visualKeywords, ''Visualization Enhancement Requests'',
         ''Users want more advanced charting and data visualization options.''),
      (supportKeywords, ''Customer Support Excellence'',
         ''Users report positive experiences with customer support team.'')]"

definition qualifies :: "string list \<times> string \<times> string \<Rightarrow> string list \<Rightarrow> bool" where
  "qualifies b lines = (2 \<le> length (matching (fst b) lines))"

definition bucketTheme :: "string list \<times> string \<times> string \<Rightarrow> string list \<Rightarrow> theme" where
  "bucketTheme b lines =
     \<lparr>title = fst (snd b), summary = snd (snd b), quotes = take 3 (matching (fst b) lines)\<rparr>"

definition bucketBranch :: "string list \<Rightarrow> theme list" where
  "bucketBranch lines = map (\<lambda>b. bucketTheme b lines) (filter (\<lambda>b. qualifies b lines) buckets)"

definition chunk :: "string list \<Rightarrow> nat \<Rightarrow> string list" where
  "chunk lines i =
     take (ceilThird (length lines)) (drop (i * ceilThird (length lines)) lines)"

definition genericTheme :: "string list \<Rightarrow> nat \<Rightarrow> theme" where
  "genericTheme lines i =
     \<lparr>title = ''Theme '' @ showNat (i + 1), summary = ''User feedback grouped by similarity.'',
      quotes = take 3 (chunk lines i)\<rparr>"

definition chunkBranch :: "string list \<Rightarrow> theme list" where
  "chunkBranch lines = map (genericTheme lines) (filter (\<lambda>i. chunk lines i \<noteq> []) [0, 1, 2])"

section \<open>The impact/effort tagger (\<open>guessImpactEffort\<close>, feedback.ts)\<close>

datatype level = Low | Med | High

record tags =
  impact :: level
  effort :: level

definition highImpactWords :: "string list" where
  "highImpactWords = [''crash'', ''broken'', ''fail'', ''error'', ''critical'', ''urgent'',
     ''blocker'', ''security'', ''data loss'']"

definition medImpactWords :: "string list" where
  "medImpactWords = [''slow'', ''confus'', ''unclear'', ''difficult'', ''problem'', ''issue'',
     ''concern'']"

definition lowImpactWords :: "string list" where
  "lowImpactWords = [''nice'', ''would love'', ''wish'', ''suggestion'', ''prefer'', ''minor'']"

definition highEffortWords :: "string list" where
  "highEffortWords = [''redesign'', ''rebuild'', ''architecture'', ''refactor'',
     ''infrastructure'', ''migration'']"

definition medEffortWords :: "string list" where
  "medEffortWords = [''add'', ''implement'', ''create'', ''develop'', ''build'', ''feature'']"

definition lowEffortWords :: "string list" where
  "lowEffortWords = [''fix'', ''update'', ''change'', ''adjust'', ''tweak'', ''improve'',
     ''polish'']"

text \<open>\<open>words.some(w => text.includes(w))\<close>\<close>

definition someIncluded :: "string list \<Rightarrow> string \<Rightarrow> bool" where
  "someIncluded words text = list_ex (\<lambda>w. includes_str text w) words"

definition guessImpactEffort :: "theme \<Rightarrow> tags" where
  "guessImpactEffort theme =
     (let text = toLowerCase (title theme @ '' '' @ summary theme);
          impact = Med;
          effort = Med;
          impact = (if someIncluded highImpactWords text then High
                    else if someIncluded lowImpactWords text then Low
                    else if someIncluded medImpactWords text then Med
                    else impact);
          effort = (if someIncluded highEffortWords text then High
                    else if someIncluded lowEffortWords text then Low
                    else if someIncluded medEffortWords text then Med
                    else effort)
      in \<lparr>impact = impact, effort = effort\<rparr>)"

section \<open>The theme extractor (\<open>analyzeFeedback\<close>, feedback.ts)\<close>

text \<open>\<open>s.split(d)\<close> for a one-character separator: the empty string splits into one empty piece.\<close>

fun splitOn :: "char \<Rightarrow> string \<Rightarrow> string list" where
  "splitOn d [] = [[]]"
| "splitOn d (c # cs) =
     (if c = d then [] # splitOn d cs
      else (case splitOn d cs of [] \<Rightarrow> [[c]] | r # rs \<Rightarrow> (c # r) # rs))"

text \<open>\<open>text.split('\n').map(line => line.trim()).filter(line => line.length > 0)\<close>\<close>

definition inputLines :: "string \<Rightarrow> string list" where
  "inputLines text = filter (\<lambda>line. length line > 0) (map trim (splitOn newline text))"

text \<open>
  The values a response can carry. \<open>JObject\<close> lists the own properties of an object, each
  key once. Numbers are kept as integers: the extractor only needs to know that a number is
  not a string.
\<close>

datatype json =
    JNull
  | JBool bool
  | JNumber int
  | JString string
  | JArray "json list"
  | JObject "(string \<times> json) list"

datatype js_exception = FetchError | TypeError | SyntaxError

datatype error = EmptyInput | InsufficientInput

text \<open>
  What \<open>await fetch(...)\<close> yields when it does not reject: the \<open>ok\<close> flag and the outcome of
  \<open>await response.json()\<close>, \<open>None\<close> when the body is not JSON and the promise rejects.
\<close>

record response =
  ok :: bool
  json_body :: "json option"

text \<open>
  Property reads, with \<open>None\<close> for \<open>undefined\<close>. Reading a property of \<open>undefined\<close> or
  \<open>null\<close> throws a TypeError. Objects are looked up by key (the index \<open>0\<close> is the key
  \<open>0\<close>); an array has its elements at the indices and none of the names read here; a
  string has its characters at the indices; numbers and booleans have no such property.
\<close>

fun getProp :: "json option \<Rightarrow> string \<Rightarrow> js_exception + json option" where
  "getProp None k = Inl TypeError"
| "getProp (Some JNull) k = Inl TypeError"
| "getProp (Some (JObject kvs)) k = Inr (map_of kvs k)"
| "getProp (Some v) k = Inr None"

fun getIndex0 :: "json option \<Rightarrow> js_exception + json option" where
  "getIndex0 None = Inl TypeError"
| "getIndex0 (Some JNull) = Inl TypeError"
| "getIndex0 (Some (JObject kvs)) = Inr (map_of kvs ''0'')"
| "getIndex0 (Some (JArray [])) = Inr None"
| "getIndex0 (Some (JArray (x # xs))) = Inr (Some x)"
| "getIndex0 (Some (JString [])) = Inr None"
| "getIndex0 (Some (JString (c # cs))) = Inr (Some (JString [c]))"
| "getIndex0 (Some v) = Inr None"

text \<open>
  \<open>content.match(re)\<close> needs \<open>content\<close> to be a string: on \<open>undefined\<close> and \<open>null\<close> the
  property read throws, on any other value \<open>match\<close> is not a function.
\<close>

fun asString :: "json option \<Rightarrow> js_exception + string" where
  "asString (Some (JString s)) = Inr s"
| "asString v = Inl TypeError"

text \<open>\<open>data.content[0].text\<close>, as the receiver of \<open>match\<close>.\<close>

definition textContent :: "json \<Rightarrow> js_exception + string" where
  "textContent data =
     (case getProp (Some data) ''content'' of Inl e \<Rightarrow> Inl e
      | Inr content \<Rightarrow>
     (case getIndex0 content of Inl e \<Rightarrow> Inl e
      | Inr first \<Rightarrow>
     (case getProp first ''text'' of Inl e \<Rightarrow> Inl e
      | Inr t \<Rightarrow> asString t)))"

text \<open>
  \<open>content.match(/\[[\s\S]*\]/)\<close>: the leftmost match starts at the first opening bracket
  and, the star being greedy, ends at the last closing bracket after it; there is no match
  when no closing bracket follows the first opening one. The result is the matched text
  (\<open>jsonMatch[0]\<close>), \<open>None\<close> for \<open>null\<close>.
\<close>

definition matchArrayLiteral :: "string \<Rightarrow> string option" where
  "matchArrayLiteral content =
     (case dropWhile (\<lambda>c. c \<noteq> CHR ''['') content of
        [] \<Rightarrow> None
      | b # rest \<Rightarrow>
          (if CHR '']'' \<in> set rest
           then Some (b # rev (dropWhile (\<lambda>c. c \<noteq> CHR '']'') (rev rest)))
           else None))"

text \<open>The fallback themes as the value the caller receives.\<close>

definition themeValue :: "theme \<Rightarrow> json" where
  "themeValue t =
     JObject [(''title'', JString (title t)), (''summary'', JString (summary t)),
              (''quotes'', JArray (map JString (quotes t)))]"

definition themesValue :: "theme list \<Rightarrow> json" where
  "themesValue ts = JArray (map themeValue ts)"

text \<open>
  The body of the \<open>try\<close> block. The outcome of the request is a parameter: \<open>None\<close> when
  \<open>fetch\<close> rejects (network error), otherwise the response. \<open>JSON.parse\<close> is a parameter
  too, \<open>None\<close> when it throws a SyntaxError; its value is returned as it is, unvalidated.
  The prompt sent with the request does not influence what the function does with the
  outcome and is left out.
\<close>

definition tryRemote ::
  "(string \<Rightarrow> json option) \<Rightarrow> response option \<Rightarrow> string list \<Rightarrow> js_exception + json" where
  "tryRemote jsonParse outcome lines =
     (case outcome of
        None \<Rightarrow> Inl FetchError
      | Some response \<Rightarrow>
          if \<not> ok response then Inr (themesValue (mockAnalysis lines))
          else (case json_body response of
            None \<Rightarrow> Inl SyntaxError
          | Some data \<Rightarrow>
              (case textContent data of
                 Inl e \<Rightarrow> Inl e
               | Inr content \<Rightarrow>
                   (case matchArrayLiteral content of
                      Some jsonMatch \<Rightarrow>
                        (case jsonParse jsonMatch of
                           None \<Rightarrow> Inl SyntaxError
                         | Some v \<Rightarrow> Inr v)
                    | None \<Rightarrow> Inr (themesValue (mockAnalysis lines))))))"

text \<open>
  \<open>analyzeFeedback\<close>: the line count check throws before the \<open>try\<close> block; inside it,
  every exception is caught and replaced by the fallback themes.
\<close>

definition analyzeFeedback ::
  "(string \<Rightarrow> json option) \<Rightarrow> response option \<Rightarrow> string \<Rightarrow> error + json" where
  "analyzeFeedback jsonParse outcome text =
     (let lines = inputLines text in
      if length lines < 3 then Inl InsufficientInput
      else (case tryRemote jsonParse outcome lines of
              Inl e \<Rightarrow> Inr (themesValue (mockAnalysis lines))
            | Inr v \<Rightarrow> Inr v))"

text \<open>
  The failures of the remote call as the specification lists them: a network error, a
  non-success status, a response without a JSON array literal, or an exception while the
  response is read and parsed (the body is not JSON, the text field is missing or not a
  string, the array literal does not parse).
\<close>

definition remoteFailure :: "(string \<Rightarrow> json option) \<Rightarrow> response option \<Rightarrow> bool" where
  "remoteFailure jsonParse outcome =
     (case outcome of
        None \<Rightarrow> True
      | Some response \<Rightarrow>
          \<not> ok response \<or>
          (case json_body response of
             None \<Rightarrow> True
           | Some data \<Rightarrow>
               (case textContent data of
                  Inl e \<Rightarrow> True
                | Inr content \<Rightarrow>
                    (case matchArrayLiteral content of
                       None \<Rightarrow> True
                     | Some jsonMatch \<Rightarrow> jsonParse jsonMatch = None))))"

text \<open>The number of lines of a text that are not blank.\<close>

definition nonBlankCount :: "string \<Rightarrow> nat" where
  "nonBlankCount text = length (filter (\<lambda>line. trim line \<noteq> []) (splitOn newline text))"

section \<open>The input merger (\<open>mergeInputs\<close>, csv.ts)\<close>

text \<open>
  A \<open>Map\<close> keeps its entries in insertion order: it is modelled as an association list
  with at most one entry per key. \<open>set\<close> replaces the value of a present key in place and
  appends an entry for a new key; \<open>values()\<close> lists the values in insertion order.
\<close>

definition mapHas :: "('k \<times> 'v) list \<Rightarrow> 'k \<Rightarrow> bool" where
  "mapHas m k = list_ex (\<lambda>e. fst e = k) m"

definition mapSet :: "('k \<times> 'v) list \<Rightarrow> 'k \<Rightarrow> 'v \<Rightarrow> ('k \<times> 'v) list" where
  "mapSet m k v =
     (if mapHas m k then map (\<lambda>e. if fst e = k then (k, v) else e) m else m @ [(k, v)])"

definition mapGet :: "('k \<times> 'v) list \<Rightarrow> 'k \<Rightarrow> 'v option" where
  "mapGet m k = map_of m k"

definition mapValues :: "('k \<times> 'v) list \<Rightarrow> 'v list" where
  "mapValues m = map snd m"

record mergeStats =
  textCount :: nat
  csvCount :: nat
  uniqueCount :: nat
  capped :: bool
  totalBeforeCap :: nat

record mergeResult =
  merged :: "string list"
  stats :: mergeStats

definition MAX_LINES :: nat where
  "MAX_LINES = 500"

text \<open>The body of \<open>combined.forEach(line => ...)\<close>, on the map built so far.\<close>

definition addUnique :: "(string \<times> string) list \<Rightarrow> string \<Rightarrow> (string \<times> string) list" where
  "addUnique uniqueMap line =
     (let key = trim (toLowerCase line) in
      if length key > 0 \<and> \<not> mapHas uniqueMap key then mapSet uniqueMap key line
      else uniqueMap)"

definition mergeInputs :: "string list \<Rightarrow> string list \<Rightarrow> mergeResult" where
  "mergeInputs textLines csvLines =
     (let combined = textLines @ csvLines;
          uniqueMap = foldl addUnique [] combined;
          unique = mapValues uniqueMap;
          totalBeforeCap = length unique;
          capped = (length unique > MAX_LINES);
          merged = slice 0 MAX_LINES unique
      in \<lparr>merged = merged,
          stats = \<lparr>textCount = length textLines, csvCount = length csvLines,
                   uniqueCount = length merged, capped = capped,
                   totalBeforeCap = totalBeforeCap\<rparr>\<rparr>)"

text \<open>
  The merger as the specification words it: the dedup key of a line is the line lower-cased
  and trimmed; a line of the concatenation is kept when its key is not empty and no
  earlier line has the same key.
\<close>

definition dedupKey :: "string \<Rightarrow> string" where
  "dedupKey line = trim (toLowerCase line)"

definition firstOccurrences :: "string list \<Rightarrow> string list" where
  "firstOccurrences xs =
     map (\<lambda>i. xs ! i)
       (filter (\<lambda>i. dedupKey (xs ! i) \<noteq> [] \<and>
                  dedupKey (xs ! i) \<notin> set (map dedupKey (take i xs)))
          [0..<length xs])"

section \<open>The labeled CSV export (\<open>createLabeledCSV\<close>, csv.ts)\<close>

text \<open>\<open>s.replace(/"/g, '""')\<close> between double quotes.\<close>

definition csvQuote :: "string \<Rightarrow> string" where
  "csvQuote s = [dquote] @ concat (map (\<lambda>c. if c = dquote then [dquote, dquote] else [c]) s)
     @ [dquote]"

text \<open>\<open>xs.join(sep)\<close>\<close>

fun joinWith :: "string \<Rightarrow> string list \<Rightarrow> string" where
  "joinWith sep [] = []"
| "joinWith sep [x] = x"
| "joinWith sep (x # y # ys) = x @ sep @ joinWith sep (y # ys)"

text \<open>The two nested \<open>forEach\<close> loops that fill \<open>themeMap\<close>.\<close>

definition addQuote :: "string \<Rightarrow> (string \<times> string) list \<Rightarrow> string \<Rightarrow> (string \<times> string) list" where
  "addQuote themeTitle themeMap quote =
     (let key = trim (toLowerCase quote) in
      if \<not> mapHas themeMap key then mapSet themeMap key themeTitle else themeMap)"

definition addTheme :: "(string \<times> string) list \<Rightarrow> theme \<Rightarrow> (string \<times> string) list" where
  "addTheme themeMap theme = foldl (addQuote (title theme)) themeMap (quotes theme)"

text \<open>
  The body of \<open>feedbackLines.forEach(line => ...)\<close>. The test \<open>if (theme)\<close> is on a
  string or \<open>undefined\<close>: it holds when the key is present and its title is not empty.
\<close>

definition addRow :: "(string \<times> string) list \<Rightarrow> string list \<Rightarrow> string \<Rightarrow> string list" where
  "addRow themeMap lines line =
     (let key = trim (toLowerCase line) in
      case mapGet themeMap key of
        None \<Rightarrow> lines
      | Some theme \<Rightarrow>
          if theme \<noteq> [] then lines @ [csvQuote line @ '','' @ csvQuote theme] else lines)"

definition createLabeledCSV :: "string list \<Rightarrow> theme list \<Rightarrow> string" where
  "createLabeledCSV feedbackLines themes =
     (let lines = [''original_text,theme_title''];
          themeMap = foldl addTheme [] themes;
          lines = foldl (addRow themeMap) lines feedbackLines
      in joinWith [newline] lines)"

text \<open>
  The export as the claim words it: the label of a line is the title of the earliest theme,
  in theme order, one of whose quotes has the key of the line; a line with a non-empty label
  yields one row, a line without a label or with the empty label yields none.
\<close>

definition labelOf :: "theme list \<Rightarrow> string \<Rightarrow> string option" where
  "labelOf themes line =
     map_option title
       (find (\<lambda>t. dedupKey line \<in> set (map dedupKey (quotes t))) themes)"

definition rowsOf :: "theme list \<Rightarrow> string \<Rightarrow> string list" where
  "rowsOf themes line =
     (case labelOf themes line of
        None \<Rightarrow> []
      | Some t \<Rightarrow> if t = [] then [] else [csvQuote line @ '','' @ csvQuote t])"

text \<open>All the (key, title) pairs of the themes, in theme and quote order.\<close>

definition quotePairs :: "theme list \<Rightarrow> (string \<times> string) list" where
  "quotePairs themes = concat (map (\<lambda>t. map (\<lambda>q. (dedupKey q, title t)) (quotes t)) themes)"

section \<open>The CSV parser (\<open>detectDelimiter\<close>, \<open>parseCSV\<close>, csv.ts)\<close>

definition carriageReturn :: char where
  "carriageReturn = CHR 0x0D"

text \<open>
  \<open>text.split(/\r?\n/)\<close>: a line feed separates, together with the carriage return just
  before it when there is one; any other carriage return stays in its line.
\<close>

fun consToFirst :: "char \<Rightarrow> string list \<Rightarrow> string list" where
  "consToFirst c [] = [[c]]"
| "consToFirst c (r # rs) = (c # r) # rs"

fun splitLines :: "string \<Rightarrow> string list" where
  "splitLines [] = [[]]"
| "splitLines [c] = (if c = newline then [[], []] else [[c]])"
| "splitLines (c # c' # cs) =
     (if c = carriageReturn \<and> c' = newline then [] # splitLines cs
      else if c = newline then [] # splitLines (c' # cs)
      else consToFirst c (splitLines (c' # cs)))"

definition countChar :: "char \<Rightarrow> string \<Rightarrow> nat" where
  "countChar c s = length (filter (\<lambda>x. x = c) s)"

definition detectDelimiter :: "string \<Rightarrow> string" where
  "detectDelimiter sample =
     (let firstLines = joinWith [newline] (take 5 (splitOn newline sample));
          commaCount = countChar (CHR '','') firstLines;
          semicolonCount = countChar (CHR '';'') firstLines
      in if semicolonCount > commaCount then '';'' else '','')"

definition isDigit :: "char \<Rightarrow> bool" where
  "isDigit c = (let n = (of_char c :: nat) in 48 \<le> n \<and> n \<le> 57)"

text \<open>\<open>/^\d+$/.test(s)\<close>\<close>

definition allDigits :: "string \<Rightarrow> bool" where
  "allDigits s = (s \<noteq> [] \<and> list_all isDigit s)"

record parsedCSV =
  rows :: "string list list"
  headers :: "string list option"
  detectedDelimiter :: string

text \<open>The test of \<open>firstRow.every(cell => ...)\<close>.\<close>

definition headerCell :: "string \<Rightarrow> bool" where
  "headerCell cell =
     (let trimmed = trim cell in
      length trimmed > 0 \<and> length trimmed < 50 \<and> \<not> allDigits trimmed)"

text \<open>
  \<open>parseCSV\<close> on the text of the file. \<open>parsedLines[0]\<close> is read after the check that there
  is a line.
\<close>

definition parseCSV :: "string \<Rightarrow> error + parsedCSV" where
  "parseCSV text =
     (let delimiter = detectDelimiter text;
          lines = filter (\<lambda>line. length (trim line) > 0) (splitLines text)
      in if length lines = 0 then Inl EmptyInput
         else
           (let parsedLines = map (\<lambda>line. parseCSVLine line delimiter) lines;
                firstRow = parsedLines ! 0;
                hasHeaders = list_all headerCell firstRow
            in if hasHeaders \<and> length parsedLines > 1
               then Inr \<lparr>rows = drop 1 parsedLines, headers = Some firstRow,
                         detectedDelimiter = delimiter\<rparr>
               else Inr \<lparr>rows = parsedLines, headers = None,
                         detectedDelimiter = delimiter\<rparr>))"

text \<open>The rows of a file: its non-blank lines, tokenized with the detected delimiter.\<close>

definition fileRows :: "string \<Rightarrow> string list list" where
  "fileRows text =
     map (\<lambda>line. parseCSVLine line (detectDelimiter text))
       (filter (\<lambda>line. trim line \<noteq> []) (splitLines text))"

section \<open>The column selector (\<open>chooseTextColumn\<close>, csv.ts)\<close>

text \<open>
  The scores are numbers of the source language. Their arithmetic is a parameter: the
  conversion of a counter, division, multiplication, addition and the two weights
  \<open>0.7\<close> and \<open>0.3\<close>, on any linearly ordered type. The counters hold lengths and counts,
  and are natural numbers.
\<close>

record 'f arith =
  ofNat :: "nat \<Rightarrow> 'f"
  fdiv :: "'f \<Rightarrow> 'f \<Rightarrow> 'f"
  fmul :: "'f \<Rightarrow> 'f \<Rightarrow> 'f"
  fadd :: "'f \<Rightarrow> 'f \<Rightarrow> 'f"
  c07 :: 'f
  c03 :: 'f

definition isAlpha :: "char \<Rightarrow> bool" where
  "isAlpha c = (let n = (of_char c :: nat) in (65 \<le> n \<and> n \<le> 90) \<or> (97 \<le> n \<and> n \<le> 122))"

text \<open>\<open>if (row[colIndex])\<close>: the cell exists and is not the empty string.\<close>

definition truthyCell :: "string list \<Rightarrow> nat \<Rightarrow> bool" where
  "truthyCell row colIndex = (colIndex < length row \<and> row ! colIndex \<noteq> [])"

text \<open>The body of \<open>samples.forEach(row => ...)\<close> on the three counters.\<close>

definition sampleStep :: "nat \<Rightarrow> nat \<times> nat \<times> nat \<Rightarrow> string list \<Rightarrow> nat \<times> nat \<times> nat" where
  "sampleStep colIndex counters row =
     (case counters of (totalLength, alphaCount, validCount) \<Rightarrow>
        if truthyCell row colIndex
        then (let cell = row ! colIndex in
              (totalLength + length cell, alphaCount + length (filter isAlpha cell),
               validCount + 1))
        else (totalLength, alphaCount, validCount))"

definition columnScore :: "'f arith \<Rightarrow> string list list \<Rightarrow> nat \<Rightarrow> 'f" where
  "columnScore ops sampleRows colIndex =
     (let samples = slice 0 (min 10 (length sampleRows)) sampleRows in
      case foldl (sampleStep colIndex) (0, 0, 0) samples of
        (totalLength, alphaCount, validCount) \<Rightarrow>
          if validCount = 0 then ofNat ops 0
          else
            (let avgLength = fdiv ops (ofNat ops totalLength) (ofNat ops validCount);
                 avgAlpha = fdiv ops (ofNat ops alphaCount) (ofNat ops validCount)
             in fadd ops (fmul ops avgLength (c07 ops)) (fmul ops avgAlpha (c03 ops))))"

text \<open>\<open>xs.indexOf(y)\<close>, counting from \<open>i\<close>: \<open>-1\<close> when \<open>y\<close> does not occur.\<close>

fun indexFrom :: "nat \<Rightarrow> 'a list \<Rightarrow> 'a \<Rightarrow> int" where
  "indexFrom i [] y = - 1"
| "indexFrom i (x # xs) y = (if x = y then int i else indexFrom (i + 1) xs y)"

definition indexOf :: "'a list \<Rightarrow> 'a \<Rightarrow> int" where
  "indexOf xs y = indexFrom 0 xs y"

text \<open>
  \<open>Math.max(...scores)\<close> is the maximum of a non-empty list; on the empty list it is
  \<open>-Infinity\<close>, which \<open>indexOf\<close> does not find. The scores have one entry per header, so
  that list is not empty when it is built. The parameter \<open>hdrs\<close> is the source's
  \<open>headers\<close>, \<open>None\<close> for \<open>undefined\<close>.
\<close>

definition chooseTextColumn ::
  "('f::linorder) arith \<Rightarrow> string list option \<Rightarrow> string list list \<Rightarrow> int" where
  "chooseTextColumn ops hdrs sampleRows =
     (case hdrs of
        None \<Rightarrow> 0
      | Some hs \<Rightarrow>
          if length hs = 0 then 0
          else
            (let scores = map (\<lambda>colIndex. columnScore ops sampleRows colIndex) [0..<length hs]
             in case scores of
                  [] \<Rightarrow> - 1
                | s # ss \<Rightarrow> indexOf scores (foldl max s ss)))"

text \<open>
  The score as the specification words it: over the non-empty cells of the column among
  the first ten rows, \<open>0.7\<close> times the average length plus \<open>0.3\<close> times the average number
  of letters, and \<open>0\<close> when there is no such cell.
\<close>

definition sampledCells :: "string list list \<Rightarrow> nat \<Rightarrow> string list" where
  "sampledCells sampleRows j =
     map (\<lambda>row. row ! j) (filter (\<lambda>row. j < length row \<and> row ! j \<noteq> []) (take 10 sampleRows))"

definition averageOf :: "'f arith \<Rightarrow> nat list \<Rightarrow> 'f" where
  "averageOf ops ns = fdiv ops (ofNat ops (sum_list ns)) (ofNat ops (length ns))"

definition specScore :: "'f arith \<Rightarrow> string list list \<Rightarrow> nat \<Rightarrow> 'f" where
  "specScore ops sampleRows j =
     (let cells = sampledCells sampleRows j in
      if cells = [] then ofNat ops 0
      else fadd ops (fmul ops (averageOf ops (map length cells)) (c07 ops))
             (fmul ops (averageOf ops (map (\<lambda>cell. length (filter isAlpha cell)) cells))
                (c03 ops)))"

text \<open>Exact rational arithmetic, an instance of the parameter.\<close>

definition exactOps :: "rat arith" where
  "exactOps = \<lparr>ofNat = of_nat, fdiv = (/), fmul = (*), fadd = (+), c07 = 7 / 10, c03 = 3 / 10\<rparr>"

section \<open>Properties of the string operations\<close>

lemma dropWhile_fixed: "xs = [] \<or> \<not> P (hd xs) \<Longrightarrow> dropWhile P xs = xs"
  by (cases xs) auto

lemma trim_trim: "trim (trim s) = trim s"
proof -
  define a where "a = dropWhile isWhiteSpace s"
  define b where "b = rev (dropWhile isWhiteSpace (rev a))"
  have a: "a = [] \<or> \<not> isWhiteSpace (hd a)"
    using hd_dropWhile [of isWhiteSpace s] by (auto simp: a_def)
  have split: "a = b @ rev (takeWhile isWhiteSpace (rev a))"
    by (metis b_def rev_append rev_rev_ident takeWhile_dropWhile_id)
  have hb: "b = [] \<or> \<not> isWhiteSpace (hd b)"
  proof (cases b)
    case Nil
    then show ?thesis by simp
  next
    case (Cons x bs)
    with split have "hd a = x" and "a \<noteq> []"
      by (metis append_Cons list.sel(1), auto)
    with a Cons show ?thesis by simp
  qed
  have lb: "b = [] \<or> \<not> isWhiteSpace (last b)"
    using hd_dropWhile [of isWhiteSpace "rev a"] by (auto simp: b_def last_rev)
  have "dropWhile isWhiteSpace b = b"
    using hb by (rule dropWhile_fixed)
  moreover have "dropWhile isWhiteSpace (rev b) = rev b"
    using lb by (intro dropWhile_fixed) (auto simp: hd_rev)
  ultimately have "trim b = b"
    unfolding trim_def by simp
  moreover have "trim s = b"
    by (simp add: trim_def a_def b_def)
  ultimately show ?thesis by simp
qed

lemma startsWith_prefix: "startsWith s k \<longleftrightarrow> prefix k s"
  by (induction s k rule: startsWith.induct) auto

lemma includes_str_sublist: "includes_str s k \<longleftrightarrow> sublist k s"
  by (induction s) (auto simp: startsWith_prefix sublist_Cons_right)

lemma toLowerCase_append: "toLowerCase (a @ b) = toLowerCase a @ toLowerCase b"
  by (simp add: toLowerCase_def)

lemma trim_no_break_space: "trim ([CHR 0xA0] @ ''a b'' @ [CHR 0xA0, CHR '' '']) = ''a b''"
  by code_simp

lemma toLowerCase_latin1:
  "toLowerCase [CHR ''A'', CHR 0xC9, CHR 0xD7, CHR 0xDE, CHR 0xDF, CHR ''z'']
     = [CHR ''a'', CHR 0xE9, CHR 0xD7, CHR 0xFE, CHR 0xDF, CHR ''z'']"
  by code_simp

section \<open>The tokenizer\<close>

lemma parseLoop_tokenize:
  "parseLoop line d i result cur q = result @ tokenize d q cur (drop i line)"
proof (induction line d i result cur q rule: parseLoop.induct)
  case (1 line d i result cur q)
  show ?case
  proof (cases "i < length line")
    case False
    then show ?thesis by (subst parseLoop.simps) simp
  next
    case True
    note lt = True
    have d1: "drop i line = line ! i # drop (i + 1) line"
      using lt by (simp add: Cons_nth_drop_Suc)
    show ?thesis
    proof (cases "i + 1 < length line")
      case True
      have d2: "drop i line = line ! i # line ! (i + 1) # drop (i + 2) line"
        using True d1 by (simp add: Cons_nth_drop_Suc)
      have d3: "drop (Suc i) line = line ! (i + 1) # drop (i + 2) line"
        using True by (simp add: Cons_nth_drop_Suc)
      show ?thesis
        using "1.IH" lt True
        apply (subst parseLoop.simps)
        apply (simp only: d2 tokenize.simps)
        apply (auto simp: d3)
        done
    next
      case False
      then have d2: "drop i line = [line ! i]"
        using d1 lt by simp
      have e: "drop (Suc i) line = []"
        using False by simp
      show ?thesis
        using "1.IH" lt False
        apply (subst parseLoop.simps)
        apply (simp only: d2 tokenize.simps)
        apply (auto simp: e)
        done
    qed
  qed
qed

lemma tokenize_trimmed: "f \<in> set (tokenize d q cur rest) \<Longrightarrow> trim f = f"
  by (induction d q cur rest rule: tokenize.induct) (auto simp: trim_trim split: if_splits)

lemma tokenize_example:
  \<open>tokenize '','' False [] ''"a,b","c""d",e'' = [''a,b'', ''c"d'', ''e'']\<close>
  by code_simp

lemma parseCSVLine_no_break_space:
  "parseCSVLine (''a'' @ [CHR 0xA0] @ '',b'') '','' = [''a'', ''b'']"
  by code_simp

lemma tokenize_Cons:
  "tokenize d q cur (c # cs) =
     (if c = dquote then
        (if q \<and> cs \<noteq> [] \<and> hd cs = dquote then tokenize d q (cur @ [dquote]) (tl cs)
         else tokenize d (\<not> q) cur cs)
      else if [c] = d \<and> \<not> q then trim cur # tokenize d q [] cs
      else tokenize d q (cur @ [c]) cs)"
  by (cases cs) simp_all

lemma splitOn_nonempty: "splitOn d s \<noteq> []"
  by (induction s) (auto split: list.splits)

lemma splitOn_Cons:
  "splitOn d (c # cs) =
     (if c = d then [] # splitOn d cs
      else (c # hd (splitOn d cs)) # tl (splitOn d cs))"
  using splitOn_nonempty [of d cs] by (cases "splitOn d cs") simp_all

lemma tokenize_unquoted:
  "dquote \<notin> set rest \<Longrightarrow>
   tokenize [d] False cur rest =
     trim (cur @ hd (splitOn d rest)) # map trim (tl (splitOn d rest))"
proof (induction rest arbitrary: cur)
  case Nil
  show ?case by simp
next
  case (Cons c cs)
  then have c: "c \<noteq> dquote" and cs: "dquote \<notin> set cs"
    by auto
  show ?case
  proof (cases "c = d")
    case True
    have "splitOn d cs = hd (splitOn d cs) # tl (splitOn d cs)"
      using splitOn_nonempty [of d cs] by simp
    then have "map trim (splitOn d cs) =
        trim (hd (splitOn d cs)) # map trim (tl (splitOn d cs))"
      by (metis list.simps(9))
    with True c Cons.IH [OF cs, of "[]"] show ?thesis
      by (simp add: tokenize_Cons splitOn_Cons del: tokenize.simps splitOn.simps)
  next
    case False
    with c Cons.IH [OF cs, of "cur @ [c]"] show ?thesis
      by (simp add: tokenize_Cons splitOn_Cons del: tokenize.simps splitOn.simps)
  qed
qed

lemma tokenize_quoted:
  "dquote \<notin> set s \<Longrightarrow> tokenize d True cur (s @ [dquote]) = [trim (cur @ s)]"
proof (induction s arbitrary: cur)
  case Nil
  show ?case by simp
next
  case (Cons c cs)
  then have c: "c \<noteq> dquote" and cs: "dquote \<notin> set cs"
    by auto
  from c Cons.IH [OF cs, of "cur @ [c]"] show ?case
    by (simp add: tokenize_Cons del: tokenize.simps)
qed

lemma parseCSVLine_unquoted:
  "dquote \<notin> set line \<Longrightarrow> parseCSVLine line [d] = map trim (splitOn d line)"
proof -
  assume a: "dquote \<notin> set line"
  have "splitOn d line = hd (splitOn d line) # tl (splitOn d line)"
    using splitOn_nonempty [of d line] by simp
  then have "map trim (splitOn d line) =
      trim (hd (splitOn d line)) # map trim (tl (splitOn d line))"
    by (metis list.simps(9))
  with tokenize_unquoted [OF a, of d "[]"] show ?thesis
    by (simp add: parseCSVLine_def parseLoop_tokenize)
qed

lemma parseCSVLine_quoted:
  "dquote \<notin> set s \<Longrightarrow> parseCSVLine ([dquote] @ s @ [dquote]) delimiter = [trim s]"
  using tokenize_quoted [of s delimiter "[]"]
  by (simp add: parseCSVLine_def parseLoop_tokenize tokenize_Cons del: tokenize.simps)

text \<open>
  Claim C4. For every line and every delimiter, \<open>parseCSVLine\<close> computes exactly the
  tokenizer of the specification started with the inside-quotes flag off and an empty
  field: fields are split at the delimiter only while the flag is off, a double quote
  toggles the flag unless it is doubled inside quotes (then one literal quote is emitted
  and both are consumed), and every emitted field is trimmed. Hence a line without double
  quotes is split at every delimiter, and a quoted text without inner double quotes is one
  field, whatever delimiters it contains. Tokenizing \<open>"a,b","c""d",e\<close> with delimiter
  \<open>,\<close> gives the three fields \<open>a,b\<close>, \<open>c"d\<close> and \<open>e\<close>.
\<close>

theorem parseCSVLine_tokenizer:
  \<open>parseCSVLine line delimiter = tokenize delimiter False [] line
   \<and> list_all (\<lambda>f. trim f = f) (parseCSVLine line delimiter)
   \<and> (dquote \<notin> set line \<longrightarrow> parseCSVLine line [d] = map trim (splitOn d line))
   \<and> (dquote \<notin> set s \<longrightarrow> parseCSVLine ([dquote] @ s @ [dquote]) delimiter = [trim s])
   \<and> parseCSVLine ''"a,b","c""d",e'' '','' = [''a,b'', ''c"d'', ''e'']\<close>
proof -
  have eq: "parseCSVLine l dl = tokenize dl False [] l" for l dl
    by (simp add: parseCSVLine_def parseLoop_tokenize)
  have "list_all (\<lambda>f. trim f = f) (tokenize delimiter False [] line)"
    unfolding list_all_iff using tokenize_trimmed by blast
  with eq tokenize_example parseCSVLine_unquoted parseCSVLine_quoted show ?thesis
    by simp
qed

lemma unquoted_example: "map trim (splitOn (CHR '','') ''a , b,c'') = [''a'', ''b'', ''c'']"
  by code_simp

lemma no_quote_examples: "dquote \<notin> set ''a , b,c''" "dquote \<notin> set ''a,b''"
  by code_simp+

lemma trim_example: "trim ''a,b'' = ''a,b''"
  by code_simp

theorem parseCSVLine_tokenizer_witness:
  "dquote \<notin> set ''a , b,c''
   \<and> parseCSVLine ''a , b,c'' '','' = [''a'', ''b'', ''c'']
   \<and> dquote \<notin> set ''a,b''
   \<and> parseCSVLine ([dquote] @ ''a,b'' @ [dquote]) '','' = [''a,b'']"
proof -
  define l where "l = ''a , b,c''"
  define s where "s = ''a,b''"
  have nl: "dquote \<notin> set l" and ns: "dquote \<notin> set s"
    unfolding l_def s_def by (rule no_quote_examples)+
  from parseCSVLine_tokenizer [of l "'',''" "CHR '',''" s]
  have a: "dquote \<notin> set l \<longrightarrow> parseCSVLine l [CHR '',''] = map trim (splitOn (CHR '','') l)"
    and b: "dquote \<notin> set s \<longrightarrow> parseCSVLine ([dquote] @ s @ [dquote]) '','' = [trim s]"
    by blast+
  from a nl have "parseCSVLine l '','' = map trim (splitOn (CHR '','') l)"
    by simp
  then have 1: "parseCSVLine l '','' = [''a'', ''b'', ''c'']"
    unfolding l_def by (simp only: unquoted_example)
  from b ns have "parseCSVLine ([dquote] @ s @ [dquote]) '','' = [trim s]"
    by simp
  then have 2: "parseCSVLine ([dquote] @ s @ [dquote]) '','' = [''a,b'']"
    unfolding s_def by (simp only: trim_example)
  from nl 1 ns 2 show ?thesis
    unfolding l_def s_def by (intro conjI)
qed

section \<open>The fallback classifier\<close>

lemma filter_map_cons:
  "map f (filter P (x # xs)) = (if P x then [f x] else []) @ map f (filter P xs)"
  by simp

lemma bucketBranch_unfold:
  "bucketBranch lines =
     (if 2 \<le> length (matching usabilityKeywords lines)
      then [\<lparr>title = ''Navigation and Usability Issues'',
              summary = ''Users struggle to find key features and navigate the interface effectively.'',
              quotes = take 3 (matching usabilityKeywords lines)\<rparr>] else []) @
     (if 2 \<le> length (matching designKeywords lines)
      then [\<lparr>title = ''Positive Design Feedback'',
              summary = ''Users appreciate the visual design and aesthetic choices.'',
              quotes = take 3 (matching designKeywords lines)\<rparr>] else []) @
     (if 2 \<le> length (matching performanceKeywords lines)
      then [\<lparr>title = ''Performance and Stability Concerns'',
              summary = ''Users report slow loading times and reliability issues.'',
              quotes = take 3 (matching performanceKeywords lines)\<rparr>] else []) @
     (if 2 \<le> length (matching featureKeywords lines)
      then [\<lparr>title = ''Export Functionality Praised'',
              summary = ''Users value the ability to export and download their data.'',
              quotes = take 3 (matching featureKeywords lines)\<rparr>] else []) @
     (if 2 \<le> length (matching visualKeywords lines)
      then [\<lparr>title = ''Visualization Enhancement Requests'',
              summary = ''Users want more advanced charting and data visualization options.'',
              quotes = take 3 (matching visualKeywords lines)\<rparr>] else []) @
     (if 2 \<le> length (matching supportKeywords lines)
      then [\<lparr>title = ''Customer Support Excellence'',
              summary = ''Users report positive experiences with customer support team.'',
              quotes = take 3 (matching supportKeywords lines)\<rparr>] else [])"
  unfolding bucketBranch_def buckets_def
  by (simp only: filter_map_cons qualifies_def bucketTheme_def fst_conv snd_conv filter.simps(1) list.map(1) append_Nil2)

lemma pushIf_append: "pushIf c t themes = themes @ (if c then [t] else [])"
  by (simp add: pushIf_def)

lemma mockAnalysis_chunkLoop:
  "mockAnalysis lines = take 5 (if length (bucketBranch lines) = 0
       then chunkLoop lines (ceilThird (length lines)) 0 (bucketBranch lines) else bucketBranch lines)"
  unfolding mockAnalysis_def Let_def bucketBranch_unfold
  by (simp only: pushIf_append append_Nil append_assoc)


lemma ceilThird_bounds: "n \<le> 3 * ceilThird n" "3 * ceilThird n < n + 3"
  by (auto simp: ceilThird_def) presburger+

lemma ceilThird_ceiling: "int (ceilThird n) = \<lceil>real n / 3\<rceil>"
proof -
  have "\<lceil>real n / 3\<rceil> = int (ceilThird n)"
  proof (rule ceiling_unique)
    have "real (3 * ceilThird n) < real (n + 3)"
      using ceilThird_bounds(2) [of n] by (simp only: of_nat_less_iff)
    then show "of_int (int (ceilThird n)) - 1 < real n / 3" by simp
    have "real n \<le> real (3 * ceilThird n)"
      using ceilThird_bounds(1) [of n] by (simp only: of_nat_le_iff)
    then show "real n / 3 \<le> of_int (int (ceilThird n))" by simp
  qed
  then show ?thesis by simp
qed

lemma ceilThird_pos: "0 < n \<Longrightarrow> 0 < ceilThird n"
  using ceilThird_bounds(1) [of n] by simp

lemma chunk_nonempty_iff:
  "chunk lines i \<noteq> [] \<longleftrightarrow> i * ceilThird (length lines) < length lines"
proof (cases "lines = []")
  case True
  then show ?thesis by (simp add: chunk_def)
next
  case False
  then have "0 < ceilThird (length lines)" by (simp add: ceilThird_pos)
  then show ?thesis by (auto simp: chunk_def)
qed

lemma slice_chunk:
  "slice (i * ceilThird (length lines)) ((i + 1) * ceilThird (length lines)) lines = chunk lines i"
  "slice (i * ceilThird (length lines)) (ceilThird (length lines) + i * ceilThird (length lines)) lines
     = chunk lines i"
  by (simp_all add: slice_def chunk_def)

lemma chunkLoop_filter:
  "chunkLoop lines (ceilThird (length lines)) i themes =
     themes @ map (genericTheme lines) (filter (\<lambda>j. chunk lines j \<noteq> []) [i..<3])"
proof (induction lines "ceilThird (length lines)" i themes rule: chunkLoop.induct)
  case (1 lines i themes)
  let ?c = "ceilThird (length lines)"
  show ?case
  proof (cases "i < 3 \<and> i * ?c < length lines")
    case True
    then have ne: "chunk lines i \<noteq> []" by (simp add: chunk_nonempty_iff)
    have upt: "[i..<3] = i # [i + 1..<3]"
      using True by (simp add: upt_conv_Cons)
    have "chunkLoop lines ?c i themes =
        chunkLoop lines ?c (i + 1) (themes @ [genericTheme lines i])"
      using True ne by (subst chunkLoop.simps) (simp add: slice_chunk genericTheme_def Let_def)
    also have "\<dots> = (themes @ [genericTheme lines i]) @
        map (genericTheme lines) (filter (\<lambda>j. chunk lines j \<noteq> []) [i + 1..<3])"
      using "1.hyps" [OF True refl] ne by (simp add: slice_chunk genericTheme_def)
    finally show ?thesis using ne upt by simp
  next
    case False
    have "filter (\<lambda>j. chunk lines j \<noteq> []) [i..<3] = []"
    proof (cases "i < 3")
      case True
      with False have ge: "length lines \<le> i * ?c" by simp
      have "\<not> j * ?c < length lines" if "i \<le> j" for j
      proof -
        from that have "i * ?c \<le> j * ?c" by (rule mult_le_mono1)
        with ge have "length lines \<le> j * ?c" by (rule le_trans)
        then show ?thesis by (simp only: not_less)
      qed
      then show ?thesis by (auto simp: filter_empty_conv chunk_nonempty_iff)
    qed simp
    moreover have "chunkLoop lines ?c i themes = themes"
      using False by (subst chunkLoop.simps) auto
    ultimately show ?thesis by simp
  qed
qed

lemma upt_0_3: "[0..<3] = [0, 1, 2]"
  by (simp add: upt_rec numeral_3_eq_3)

lemma chunkLoop_chunkBranch:
  "chunkLoop lines (ceilThird (length lines)) 0 [] = chunkBranch lines"
  by (simp add: chunkLoop_filter chunkBranch_def upt_0_3)

lemma mockAnalysis_eq:
  "mockAnalysis lines =
     take 5 (if bucketBranch lines \<noteq> [] then bucketBranch lines else chunkBranch lines)"
  using chunkLoop_chunkBranch [of lines] by (auto simp: mockAnalysis_chunkLoop)

lemma chunks_partition: "concat (map (chunk lines) [0, 1, 2]) = lines"
proof -
  let ?c = "ceilThird (length lines)"
  have "concat (map (chunk lines) [0, 1, 2]) = take (?c + (?c + ?c)) lines"
    unfolding take_add by (simp add: chunk_def drop_take add.commute mult_2)
  also have "\<dots> = lines"
    using ceilThird_bounds(1) [of "length lines"] by simp
  finally show ?thesis .
qed

lemma chunkBranch_nonempty: "lines \<noteq> [] \<Longrightarrow> chunkBranch lines \<noteq> []"
proof -
  assume "lines \<noteq> []"
  then have "chunk lines 0 \<noteq> []" by (simp add: chunk_nonempty_iff)
  then show ?thesis by (simp add: chunkBranch_def)
qed

lemma mockAnalysis_nonempty: "lines \<noteq> [] \<Longrightarrow> mockAnalysis lines \<noteq> []"
  using chunkBranch_nonempty [of lines] by (auto simp: mockAnalysis_eq)

lemma titles_distinct: "distinct (map (\<lambda>b. fst (snd b)) buckets)"
  unfolding buckets_def by simp

lemma buckets_title_inj:
  "b \<in> set buckets \<Longrightarrow> b' \<in> set buckets \<Longrightarrow> fst (snd b) = fst (snd b') \<Longrightarrow> b = b'"
  using titles_distinct by (simp add: distinct_map inj_on_def)

lemma bucketTheme_mem_iff:
  assumes "b \<in> set buckets"
  shows "bucketTheme b lines \<in> set (bucketBranch lines) \<longleftrightarrow>
    2 \<le> length (matching (fst b) lines)"
proof
  assume "bucketTheme b lines \<in> set (bucketBranch lines)"
  then obtain b' where b': "b' \<in> set buckets" "qualifies b' lines"
    and eq: "bucketTheme b lines = bucketTheme b' lines"
    by (auto simp: bucketBranch_def)
  from eq have "fst (snd b) = fst (snd b')"
    by (simp add: bucketTheme_def)
  with assms b' have "b = b'" by (intro buckets_title_inj)
  with b' show "2 \<le> length (matching (fst b) lines)" by (simp add: qualifies_def)
next
  assume "2 \<le> length (matching (fst b) lines)"
  with assms show "bucketTheme b lines \<in> set (bucketBranch lines)"
    by (auto simp: bucketBranch_def qualifies_def)
qed

lemma bucketBranch_nonempty_iff:
  "bucketBranch lines \<noteq> [] \<longleftrightarrow> list_ex (\<lambda>b. qualifies b lines) buckets"
  by (auto simp: bucketBranch_def filter_empty_conv list_ex_iff)

lemma subseq_take_filter: "subseq (take n (filter P xs)) xs"
proof -
  have "subseq (take n (filter P xs)) (filter P xs)"
    by (intro prefix_imp_subseq take_is_prefix)
  also have "subseq (filter P xs) xs"
    by (rule subseq_filter_left)
  finally show ?thesis .
qed

lemma subseq_take_chunk: "subseq (take n (chunk lines i)) lines"
proof -
  let ?k = "i * ceilThird (length lines)"
  have "subseq (take n (chunk lines i)) (chunk lines i)"
    by (intro prefix_imp_subseq take_is_prefix)
  also have "subseq (chunk lines i) (drop ?k lines)"
    unfolding chunk_def by (intro prefix_imp_subseq take_is_prefix)
  also have "subseq (drop ?k lines) lines"
    by (intro suffix_imp_subseq suffix_drop)
  finally show ?thesis .
qed

lemma performance_example:
  "mockAnalysis [''App crashes on load'', ''Frequent crashes reported''] =
     [\<lparr>title = ''Performance and Stability Concerns'',
       summary = ''Users report slow loading times and reliability issues.'',
       quotes = [''App crashes on load'', ''Frequent crashes reported'']\<rparr>]"
  by code_simp

text \<open>
  Claim C1. For every list of lines, the result of \<open>mockAnalysis\<close> is the first five themes
  of the bucket branch when some bucket qualifies, and of the chunk branch otherwise, so
  the themes always come from exactly one of the two branches, in bucket or chunk order.
  A bucket's theme is among the bucket themes if and only if at least two lines match the
  bucket; its quotes are the first three matching lines (definition \<open>bucketTheme\<close>). The
  three chunks have size \<open>ceil(n / 3)\<close> and partition the lines; a generic theme
  \<open>Theme i\<close> is emitted per non-empty chunk with its first three lines. On a non-empty list
  the branch taken emits at least one theme (on the empty list neither branch has a line
  to quote and the result is empty). On \<open>App crashes on load\<close>, \<open>Frequent crashes reported\<close>
  the result is the single theme \<open>Performance and Stability Concerns\<close> with these two
  quotes.
\<close>

theorem mockAnalysis_fallback:
  "mockAnalysis lines =
     take 5 (if bucketBranch lines \<noteq> [] then bucketBranch lines else chunkBranch lines)
   \<and> (\<forall>b \<in> set buckets.
        bucketTheme b lines \<in> set (bucketBranch lines) \<longleftrightarrow>
        2 \<le> length (matching (fst b) lines))
   \<and> concat (map (chunk lines) [0, 1, 2]) = lines
   \<and> int (ceilThird (length lines)) = \<lceil>real (length lines) / 3\<rceil>
   \<and> (lines \<noteq> [] \<longrightarrow> mockAnalysis lines \<noteq> [])
   \<and> length (mockAnalysis lines) \<le> 5
   \<and> mockAnalysis [''App crashes on load'', ''Frequent crashes reported''] =
       [\<lparr>title = ''Performance and Stability Concerns'',
         summary = ''Users report slow loading times and reliability issues.'',
         quotes = [''App crashes on load'', ''Frequent crashes reported'']\<rparr>]"
proof (intro conjI)
  show "mockAnalysis lines =
      take 5 (if bucketBranch lines \<noteq> [] then bucketBranch lines else chunkBranch lines)"
    by (rule mockAnalysis_eq)
  show "\<forall>b \<in> set buckets.
      bucketTheme b lines \<in> set (bucketBranch lines) \<longleftrightarrow> 2 \<le> length (matching (fst b) lines)"
    using bucketTheme_mem_iff by blast
  show "concat (map (chunk lines) [0, 1, 2]) = lines"
    by (rule chunks_partition)
  show "int (ceilThird (length lines)) = \<lceil>real (length lines) / 3\<rceil>"
    by (rule ceilThird_ceiling)
  show "lines \<noteq> [] \<longrightarrow> mockAnalysis lines \<noteq> []"
    using mockAnalysis_nonempty by blast
  show "length (mockAnalysis lines) \<le> 5"
    by (simp add: mockAnalysis_eq)
  show "mockAnalysis [''App crashes on load'', ''Frequent crashes reported''] =
       [\<lparr>title = ''Performance and Stability Concerns'',
         summary = ''Users report slow loading times and reliability issues.'',
         quotes = [''App crashes on load'', ''Frequent crashes reported'']\<rparr>]"
    by (rule performance_example)
qed

theorem mockAnalysis_fallback_witness:
  "(performanceKeywords, ''Performance and Stability Concerns'',
      ''Users report slow loading times and reliability issues.'') \<in> set buckets
   \<and> 2 \<le> length (matching performanceKeywords
        [''App crashes on load'', ''Frequent crashes reported''])
   \<and> bucketTheme (performanceKeywords, ''Performance and Stability Concerns'',
        ''Users report slow loading times and reliability issues.'')
        [''App crashes on load'', ''Frequent crashes reported'']
       \<in> set (bucketBranch [''App crashes on load'', ''Frequent crashes reported''])
   \<and> [''App crashes on load'', ''Frequent crashes reported''] \<noteq> []
   \<and> mockAnalysis [''App crashes on load'', ''Frequent crashes reported''] \<noteq> []"
proof -
  let ?b = "(performanceKeywords, ''Performance and Stability Concerns'',
      ''Users report slow loading times and reliability issues.'')"
  let ?L = "[''App crashes on load'', ''Frequent crashes reported'']"
  have mem: "?b \<in> set buckets"
    by (simp add: buckets_def)
  have two: "2 \<le> length (matching performanceKeywords ?L)"
    by code_simp
  from mockAnalysis_fallback [of ?L]
  have iff: "\<forall>b \<in> set buckets.
      bucketTheme b ?L \<in> set (bucketBranch ?L) \<longleftrightarrow> 2 \<le> length (matching (fst b) ?L)"
    and ne: "?L \<noteq> [] \<longrightarrow> mockAnalysis ?L \<noteq> []"
    by blast+
  from iff mem two have "bucketTheme ?b ?L \<in> set (bucketBranch ?L)"
    by (metis fst_conv)
  moreover from ne have "mockAnalysis ?L \<noteq> []" by simp
  ultimately show ?thesis using mem two by simp
qed

lemma generic_example:
  "mockAnalysis [''Great product'', ''Billing is wrong'', ''Too expensive''] =
     [\<lparr>title = ''Theme 1'', summary = ''User feedback grouped by similarity.'',
       quotes = [''Great product'']\<rparr>,
      \<lparr>title = ''Theme 2'', summary = ''User feedback grouped by similarity.'',
       quotes = [''Billing is wrong'']\<rparr>,
      \<lparr>title = ''Theme 3'', summary = ''User feedback grouped by similarity.'',
       quotes = [''Too expensive'']\<rparr>]"
  by code_simp

text \<open>
  Claim C9 (counterexample). Three lines that match no keyword bucket go to the chunk
  branch with chunk size 1: each of the three generic themes has a single quote, not two.
\<close>

theorem mockAnalysis_single_quote_themes:
  "mockAnalysis [''Great product'', ''Billing is wrong'', ''Too expensive''] =
     [\<lparr>title = ''Theme 1'', summary = ''User feedback grouped by similarity.'',
       quotes = [''Great product'']\<rparr>,
      \<lparr>title = ''Theme 2'', summary = ''User feedback grouped by similarity.'',
       quotes = [''Billing is wrong'']\<rparr>,
      \<lparr>title = ''Theme 3'', summary = ''User feedback grouped by similarity.'',
       quotes = [''Too expensive'']\<rparr>]
   \<and> \<not> 2 \<le> length (quotes (mockAnalysis
        [''Great product'', ''Billing is wrong'', ''Too expensive''] ! 0))"
  by (simp add: generic_example)

text \<open>
  Claim C9 (as amended). Every theme emitted by the fallback classifier has between one and
  three quotes, and its quotes are a subsequence of the input lines: each quote is an input
  line, verbatim and in input order. When some bucket qualifies (the bucket branch), every
  theme has at least two quotes.
\<close>

theorem mockAnalysis_quotes:
  assumes "t \<in> set (mockAnalysis lines)"
  shows "1 \<le> length (quotes t) \<and> length (quotes t) \<le> 3
    \<and> subseq (quotes t) lines \<and> set (quotes t) \<subseteq> set lines
    \<and> (list_ex (\<lambda>b. qualifies b lines) buckets \<longrightarrow> 2 \<le> length (quotes t))"
proof (cases "bucketBranch lines \<noteq> []")
  case True
  with assms have "t \<in> set (bucketBranch lines)"
    by (auto simp: mockAnalysis_eq dest: in_set_takeD)
  then obtain b where q: "qualifies b lines" and t: "t = bucketTheme b lines"
    by (auto simp: bucketBranch_def)
  have sub: "subseq (quotes t) lines"
    by (simp add: t bucketTheme_def subseq_take_filter matching_def)
  from q have "2 \<le> length (quotes t)" and "length (quotes t) \<le> 3"
    by (simp_all add: t bucketTheme_def qualifies_def)
  moreover have "set (quotes t) \<subseteq> set lines"
    using sub by (auto dest: list_emb_set)
  ultimately show ?thesis using sub by simp
next
  case False
  with assms have "t \<in> set (chunkBranch lines)"
    by (auto simp: mockAnalysis_eq dest: in_set_takeD)
  then obtain i where ne: "chunk lines i \<noteq> []" and t: "t = genericTheme lines i"
    unfolding chunkBranch_def set_map set_filter by blast
  have sub: "subseq (quotes t) lines"
    by (simp add: t genericTheme_def subseq_take_chunk)
  from ne have "1 \<le> length (quotes t)" and "length (quotes t) \<le> 3"
    by (simp_all add: t genericTheme_def Suc_le_eq)
  moreover have "\<not> list_ex (\<lambda>b. qualifies b lines) buckets"
    using False by (simp add: bucketBranch_nonempty_iff)
  moreover have "set (quotes t) \<subseteq> set lines"
    using sub by (auto dest: list_emb_set)
  ultimately show ?thesis using sub by simp
qed

theorem mockAnalysis_quotes_witness:
  "\<lparr>title = ''Performance and Stability Concerns'',
     summary = ''Users report slow loading times and reliability issues.'',
     quotes = [''App crashes on load'', ''Frequent crashes reported'']\<rparr>
     \<in> set (mockAnalysis [''App crashes on load'', ''Frequent crashes reported''])
   \<and> list_ex (\<lambda>b. qualifies b [''App crashes on load'', ''Frequent crashes reported''])
        buckets
   \<and> 2 \<le> length [''App crashes on load'', ''Frequent crashes reported'']
   \<and> subseq [''App crashes on load'', ''Frequent crashes reported'']
        [''App crashes on load'', ''Frequent crashes reported'']"
proof -
  define L where "L = [''App crashes on load'', ''Frequent crashes reported'']"
  define T where "T = \<lparr>title = ''Performance and Stability Concerns'',
     summary = ''Users report slow loading times and reliability issues.'', quotes = L\<rparr>"
  have run: "mockAnalysis L = [T]"
    unfolding T_def L_def by (rule performance_example)
  then have mem: "T \<in> set (mockAnalysis L)"
    by simp
  have "bucketBranch L \<noteq> []"
    unfolding L_def by code_simp
  then have ex: "list_ex (\<lambda>b. qualifies b L) buckets"
    by (simp only: bucketBranch_nonempty_iff)
  have q: "quotes T = L"
    by (simp add: T_def)
  from mockAnalysis_quotes [OF mem] ex q
  have "2 \<le> length L \<and> subseq L L"
    by simp
  with mem ex show ?thesis
    unfolding T_def L_def by simp
qed

section \<open>The impact/effort tagger\<close>

lemma someIncluded_iff: "someIncluded words text \<longleftrightarrow> (\<exists>w \<in> set words. sublist w text)"
  by (simp add: someIncluded_def list_ex_iff includes_str_sublist)

lemma critical_summary:
  "sublist ''critical'' (toLowerCase ''The app has a critical security issue'')"
proof -
  have "includes_str (toLowerCase ''The app has a critical security issue'') ''critical''"
    by code_simp
  then show ?thesis by (simp only: includes_str_sublist)
qed

lemma sublist_text:
  assumes "sublist w (toLowerCase s)"
  shows "sublist w (toLowerCase (ti @ sep @ s))"
proof -
  have "toLowerCase (ti @ sep @ s) = (toLowerCase ti @ toLowerCase sep) @ toLowerCase s"
    by (simp add: toLowerCase_append)
  then have "suffix (toLowerCase s) (toLowerCase (ti @ sep @ s))"
    unfolding suffix_def by (rule exI)
  then have "sublist (toLowerCase s) (toLowerCase (ti @ sep @ s))"
    by (rule suffix_imp_sublist)
  with assms show ?thesis by (rule sublist_order.order.trans)
qed

text \<open>
  Claim C6. For every theme, with \<open>text\<close> the lower-cased title, a space and the summary:
  the impact is \<open>High\<close> if some high-impact word occurs in \<open>text\<close> as a substring, else
  \<open>Low\<close> if some low-impact word occurs, else \<open>Med\<close> (whether or not a med-impact word
  occurs); the effort follows the same order over the effort word lists. A theme whose
  summary is \<open>The app has a critical security issue\<close> gets impact \<open>High\<close>, whatever its
  title.
\<close>

theorem guessImpactEffort_priority:
  "impact (guessImpactEffort t) =
     (if \<exists>w \<in> set highImpactWords. sublist w (toLowerCase (title t @ '' '' @ summary t))
      then High
      else if \<exists>w \<in> set lowImpactWords. sublist w (toLowerCase (title t @ '' '' @ summary t))
      then Low else Med)
   \<and> effort (guessImpactEffort t) =
     (if \<exists>w \<in> set highEffortWords. sublist w (toLowerCase (title t @ '' '' @ summary t))
      then High
      else if \<exists>w \<in> set lowEffortWords. sublist w (toLowerCase (title t @ '' '' @ summary t))
      then Low else Med)
   \<and> (summary t = ''The app has a critical security issue''
        \<longrightarrow> impact (guessImpactEffort t) = High)"
proof (intro conjI impI)
  let ?text = "toLowerCase (title t @ '' '' @ summary t)"
  show i: "impact (guessImpactEffort t) =
     (if \<exists>w \<in> set highImpactWords. sublist w ?text then High
      else if \<exists>w \<in> set lowImpactWords. sublist w ?text then Low else Med)"
    by (simp add: guessImpactEffort_def Let_def someIncluded_iff)
  show "effort (guessImpactEffort t) =
     (if \<exists>w \<in> set highEffortWords. sublist w ?text then High
      else if \<exists>w \<in> set lowEffortWords. sublist w ?text then Low else Med)"
    by (simp add: guessImpactEffort_def Let_def someIncluded_iff)
  assume s: "summary t = ''The app has a critical security issue''"
  from critical_summary have "sublist ''critical'' (toLowerCase (summary t))"
    by (simp only: s)
  then have "sublist ''critical'' ?text"
    by (rule sublist_text)
  moreover have "''critical'' \<in> set highImpactWords"
    by (simp add: highImpactWords_def)
  ultimately have "\<exists>w \<in> set highImpactWords. sublist w ?text" by blast
  with i show "impact (guessImpactEffort t) = High" by simp
qed


theorem guessImpactEffort_priority_witness:
  "summary \<lparr>title = ''Login'', summary = ''The app has a critical security issue'',
       quotes = []\<rparr> = ''The app has a critical security issue''
   \<and> impact (guessImpactEffort
      \<lparr>title = ''Login'', summary = ''The app has a critical security issue'',
       quotes = []\<rparr>) = High"
proof -
  define t where "t = \<lparr>title = ''Login'', summary = ''The app has a critical security issue'',
       quotes = []\<rparr>"
  have s: "summary t = ''The app has a critical security issue''"
    unfolding t_def by (rule theme.select_convs)
  from guessImpactEffort_priority [of t]
  have "summary t = ''The app has a critical security issue''
      \<longrightarrow> impact (guessImpactEffort t) = High"
    by (elim conjE)
  from this s have "impact (guessImpactEffort t) = High"
    by (rule mp)
  with s show ?thesis unfolding t_def by (rule conjI)
qed

section \<open>The theme extractor\<close>

lemma length_inputLines: "length (inputLines input) = nonBlankCount input"
  by (simp add: inputLines_def nonBlankCount_def filter_map o_def)

lemma inputLines_nonempty: "3 \<le> nonBlankCount input \<Longrightarrow> inputLines input \<noteq> []"
  using length_inputLines [of input] by auto

lemma tryRemote_failure:
  "remoteFailure jsonParse outcome \<Longrightarrow>
   tryRemote jsonParse outcome lines = Inr (themesValue (mockAnalysis lines))
   \<or> (\<exists>e. tryRemote jsonParse outcome lines = Inl e)"
  by (auto simp: remoteFailure_def tryRemote_def split: option.splits sum.splits)

lemma inputLines_example:
  "inputLines (''Great product'' @ [newline] @ ''Billing is wrong'' @ [newline]
      @ ''Too expensive'') = [''Great product'', ''Billing is wrong'', ''Too expensive'']"
  by code_simp

lemma textContent_example:
  "textContent (JObject [(''content'', JArray [JObject [(''text'',
      JString ''no themes here'')]])]) = Inr ''no themes here''"
  by code_simp

lemma matchArrayLiteral_example: "matchArrayLiteral ''no themes here'' = None"
  by code_simp

lemma analyzeFeedback_no_break_space:
  "inputLines (''a'' @ [newline] @ ''b'' @ [newline, CHR 0xA0]) = [''a'', ''b'']"
  "analyzeFeedback (\<lambda>s. None) None (''a'' @ [newline] @ ''b'' @ [newline, CHR 0xA0])
     = Inl InsufficientInput"
  by code_simp+

lemma themesValue_empty: "themesValue ts = JArray [] \<longleftrightarrow> ts = []"
  by (simp add: themesValue_def)

text \<open>
  Claim C2. For every text with at least three non-blank lines and every failed outcome of
  the remote call (network error, non-success status, no JSON array literal in the
  response text, or an exception while the response is read and parsed), \<open>analyzeFeedback\<close>
  returns the themes of the fallback classifier on the trimmed non-empty lines, as a
  value and not as an error; these themes are not empty, so the value returned is not the
  empty array.
\<close>

theorem analyzeFeedback_fallback:
  assumes "3 \<le> nonBlankCount input" and "remoteFailure jsonParse outcome"
  shows "analyzeFeedback jsonParse outcome input =
      Inr (themesValue (mockAnalysis (inputLines input)))
    \<and> mockAnalysis (inputLines input) \<noteq> []
    \<and> analyzeFeedback jsonParse outcome input \<noteq> Inr (JArray [])"
proof -
  from assms(1) have n: "\<not> length (inputLines input) < 3"
    by (simp add: length_inputLines)
  from tryRemote_failure [OF assms(2), of "inputLines input"] n
  have run: "analyzeFeedback jsonParse outcome input =
      Inr (themesValue (mockAnalysis (inputLines input)))"
    by (auto simp: analyzeFeedback_def Let_def)
  from assms(1) have ne: "mockAnalysis (inputLines input) \<noteq> []"
    by (intro mockAnalysis_nonempty inputLines_nonempty)
  then have "themesValue (mockAnalysis (inputLines input)) \<noteq> JArray []"
    by (simp only: themesValue_empty not_False_eq_True)
  with run ne show ?thesis
    by simp
qed

theorem analyzeFeedback_fallback_witness:
  "3 \<le> nonBlankCount (''Great product'' @ [newline] @ ''Billing is wrong'' @ [newline]
      @ ''Too expensive'')
   \<and> remoteFailure (\<lambda>s. None)
        (Some \<lparr>ok = True, json_body = Some (JObject [(''content'', JArray [JObject [(''text'',
           JString ''no themes here'')]])])\<rparr>)
   \<and> analyzeFeedback (\<lambda>s. None)
        (Some \<lparr>ok = True, json_body = Some (JObject [(''content'', JArray [JObject [(''text'',
           JString ''no themes here'')]])])\<rparr>)
        (''Great product'' @ [newline] @ ''Billing is wrong'' @ [newline] @ ''Too expensive'')
      = Inr (themesValue
          [\<lparr>title = ''Theme 1'', summary = ''User feedback grouped by similarity.'',
            quotes = [''Great product'']\<rparr>,
           \<lparr>title = ''Theme 2'', summary = ''User feedback grouped by similarity.'',
            quotes = [''Billing is wrong'']\<rparr>,
           \<lparr>title = ''Theme 3'', summary = ''User feedback grouped by similarity.'',
            quotes = [''Too expensive'']\<rparr>])"
proof -
  define T where "T = ''Great product'' @ [newline] @ ''Billing is wrong'' @ [newline]
      @ ''Too expensive''"
  define R where "R = Some \<lparr>ok = True, json_body = Some (JObject [(''content'',
      JArray [JObject [(''text'', JString ''no themes here'')]])])\<rparr>"
  have fl: "inputLines T = [''Great product'', ''Billing is wrong'', ''Too expensive'']"
    unfolding T_def by (rule inputLines_example)
  have three: "3 \<le> nonBlankCount T"
    using length_inputLines [of T] by (simp add: fl)
  have fail: "remoteFailure (\<lambda>s. None) R"
    by (simp add: remoteFailure_def R_def textContent_example matchArrayLiteral_example)
  from analyzeFeedback_fallback [OF three fail]
  have "analyzeFeedback (\<lambda>s. None) R T = Inr (themesValue (mockAnalysis (inputLines T)))"
    by (rule conjunct1)
  then have "analyzeFeedback (\<lambda>s. None) R T = Inr (themesValue
          [\<lparr>title = ''Theme 1'', summary = ''User feedback grouped by similarity.'',
            quotes = [''Great product'']\<rparr>,
           \<lparr>title = ''Theme 2'', summary = ''User feedback grouped by similarity.'',
            quotes = [''Billing is wrong'']\<rparr>,
           \<lparr>title = ''Theme 3'', summary = ''User feedback grouped by similarity.'',
            quotes = [''Too expensive'']\<rparr>])"
    by (simp only: fl generic_example)
  with three fail show ?thesis
    unfolding T_def R_def by (intro conjI)
qed

lemma nonBlankCount_two: "nonBlankCount (''Great product'' @ [newline] @ ''  '') = 1"
  by code_simp

text \<open>
  Claim C5. For every text with fewer than three non-blank lines, \<open>analyzeFeedback\<close> fails
  with \<open>InsufficientInput\<close> (an error, hence no themes), whatever the remote service would
  answer; for every text with at least three such lines it returns a value, so the error
  is not raised.
\<close>

theorem analyzeFeedback_insufficient:
  "(nonBlankCount input < 3 \<longrightarrow>
      analyzeFeedback jsonParse outcome input = Inl InsufficientInput)
   \<and> (3 \<le> nonBlankCount input \<longrightarrow>
      (\<exists>v. analyzeFeedback jsonParse outcome input = Inr v))"
  by (auto simp: analyzeFeedback_def Let_def length_inputLines split: sum.splits)

theorem analyzeFeedback_insufficient_witness:
  "nonBlankCount (''Great product'' @ [newline] @ ''  '') < 3
   \<and> analyzeFeedback (\<lambda>s. None) None (''Great product'' @ [newline] @ ''  '')
       = Inl InsufficientInput
   \<and> 3 \<le> nonBlankCount (''Great product'' @ [newline] @ ''Billing is wrong'' @ [newline]
      @ ''Too expensive'')
   \<and> (\<exists>v. analyzeFeedback (\<lambda>s. None) None (''Great product'' @ [newline]
      @ ''Billing is wrong'' @ [newline] @ ''Too expensive'') = Inr v)"
proof -
  define S where "S = ''Great product'' @ [newline] @ ''  ''"
  define T where "T = ''Great product'' @ [newline] @ ''Billing is wrong'' @ [newline]
      @ ''Too expensive''"
  have few: "nonBlankCount S < 3"
    unfolding S_def nonBlankCount_two by simp
  have fl: "inputLines T = [''Great product'', ''Billing is wrong'', ''Too expensive'']"
    unfolding T_def by (rule inputLines_example)
  have three: "3 \<le> nonBlankCount T"
    using length_inputLines [of T] by (simp add: fl)
  from analyzeFeedback_insufficient [of S "\<lambda>s. None" None] few
  have a: "analyzeFeedback (\<lambda>s. None) None S = Inl InsufficientInput"
    by blast
  from analyzeFeedback_insufficient [of T "\<lambda>s. None" None] three
  have b: "\<exists>v. analyzeFeedback (\<lambda>s. None) None T = Inr v"
    by blast
  from few a three b show ?thesis
    unfolding S_def T_def by (intro conjI)
qed

section \<open>The input merger\<close>

lemma mapHas_iff: "mapHas m k \<longleftrightarrow> k \<in> set (map fst m)"
  by (auto simp: mapHas_def list_ex_iff)

lemma mapSet_fresh: "\<not> mapHas m k \<Longrightarrow> mapSet m k v = m @ [(k, v)]"
  by (simp add: mapSet_def)

lemma addUnique_cases:
  "addUnique m line =
     (if dedupKey line \<noteq> [] \<and> dedupKey line \<notin> set (map fst m)
      then m @ [(dedupKey line, line)] else m)"
  by (simp add: addUnique_def dedupKey_def Let_def mapHas_iff mapSet_fresh)

lemma firstOccurrences_snoc:
  "firstOccurrences (xs @ [x]) =
     firstOccurrences xs @
       (if dedupKey x \<noteq> [] \<and> dedupKey x \<notin> set (map dedupKey xs) then [x] else [])"
proof -
  let ?P = "\<lambda>ys i. dedupKey (ys ! i) \<noteq> [] \<and> dedupKey (ys ! i) \<notin> set (map dedupKey (take i ys))"
  have a: "filter (?P (xs @ [x])) [0..<length xs] = filter (?P xs) [0..<length xs]"
    by (rule filter_cong) (auto simp: nth_append)
  have b: "map (\<lambda>i. (xs @ [x]) ! i) (filter (?P xs) [0..<length xs])
      = map (\<lambda>i. xs ! i) (filter (?P xs) [0..<length xs])"
    by (rule map_cong) (auto simp: nth_append)
  show ?thesis
    unfolding firstOccurrences_def using a b by (simp add: nth_append)
qed

lemma foldl_addUnique:
  "map snd (foldl addUnique [] xs) = firstOccurrences xs
   \<and> set (map fst (foldl addUnique [] xs)) = dedupKey ` set xs - {[]}"
proof (induction xs rule: rev_induct)
  case Nil
  show ?case by (simp add: firstOccurrences_def)
next
  case (snoc x xs)
  then show ?case
    by (auto simp: addUnique_cases firstOccurrences_snoc)
qed

lemma unique_values:
  "mapValues (foldl addUnique [] (t @ c)) = firstOccurrences (t @ c)"
  unfolding mapValues_def by (rule conjunct1 [OF foldl_addUnique])

lemma mergeInputs_unique:
  "merged (mergeInputs t c) = take 500 (firstOccurrences (t @ c))"
  "totalBeforeCap (stats (mergeInputs t c)) = length (firstOccurrences (t @ c))"
  "capped (stats (mergeInputs t c)) \<longleftrightarrow> 500 < length (firstOccurrences (t @ c))"
  "uniqueCount (stats (mergeInputs t c)) = length (merged (mergeInputs t c))"
  "textCount (stats (mergeInputs t c)) = length t"
  "csvCount (stats (mergeInputs t c)) = length c"
  unfolding mergeInputs_def Let_def unique_values
  by (simp_all add: slice_def MAX_LINES_def)

lemma firstOccurrences_distinct:
  assumes "distinct (map dedupKey xs)" and "[] \<notin> set (map dedupKey xs)"
  shows "firstOccurrences xs = xs"
  using assms
proof (induction xs rule: rev_induct)
  case Nil
  show ?case by (simp add: firstOccurrences_def)
next
  case (snoc x xs)
  then show ?case by (auto simp: firstOccurrences_snoc)
qed

lemma subseq_firstOccurrences: "subseq (firstOccurrences xs) xs"
proof (induction xs rule: rev_induct)
  case Nil
  show ?case by (simp add: firstOccurrences_def)
next
  case (snoc x xs)
  have "subseq (firstOccurrences xs @ ys) (xs @ [x])" if "subseq ys [x]" for ys
    using snoc that by (rule list_emb_append_mono)
  then show ?case by (simp add: firstOccurrences_snoc)
qed


lemma firstOccurrences_keys: "set (map dedupKey (firstOccurrences xs)) \<subseteq> dedupKey ` set xs"
  using subseq_firstOccurrences [of xs] by (auto dest: list_emb_set)

lemma distinct_firstOccurrences: "distinct (map dedupKey (firstOccurrences xs))"
proof (induction xs rule: rev_induct)
  case Nil
  show ?case by (simp add: firstOccurrences_def)
next
  case (snoc x xs)
  then show ?case
    using firstOccurrences_keys [of xs] by (auto simp: firstOccurrences_snoc)
qed

lemma dedupKey_replicate: "dedupKey (replicate (Suc n) CHR ''a'') = replicate (Suc n) CHR ''a''"
proof -
  have l: "toLowerChar CHR ''a'' = CHR ''a''"
    by code_simp
  have w: "\<not> isWhiteSpace CHR ''a''"
    by code_simp
  have "dropWhile isWhiteSpace (replicate (Suc n) CHR ''a'') = replicate (Suc n) CHR ''a''"
    using w by (intro dropWhile_fixed) simp
  then have "trim (replicate (Suc n) CHR ''a'') = replicate (Suc n) CHR ''a''"
    unfolding trim_def by (simp only: rev_replicate)
  then show ?thesis
    by (simp add: dedupKey_def toLowerCase_def l del: replicate_Suc)
qed

lemma mergeInputs_latin1:
  "merged (mergeInputs [[CHR 0xC9]] [[CHR 0xE9]]) = [[CHR 0xC9]]"
  "totalBeforeCap (stats (mergeInputs [[CHR 0xC9]] [[CHR 0xE9]])) = 1"
  "merged (mergeInputs [''a''] [''a'' @ [CHR 0xA0]]) = [''a'']"
  by code_simp+

text \<open>
  Claim C3. For every pair of line sequences, \<open>mergeInputs\<close> keeps, of the free-text lines
  followed by the CSV lines, the first occurrence of every non-empty lower-cased and trimmed
  key, with its original text and in the original order, and caps the result at 500
  entries: \<open>merged\<close> is the first 500 of these lines, \<open>totalBeforeCap\<close> is their number,
  \<open>capped\<close> holds exactly when that number exceeds 500, and the length of \<open>merged\<close> is the
  minimum of \<open>totalBeforeCap\<close> and 500. In particular 600 lines with distinct non-empty keys
  give 500 merged lines, \<open>capped\<close> true and \<open>totalBeforeCap\<close> 600.
\<close>

theorem mergeInputs_dedup_cap:
  "merged (mergeInputs textLines csvLines) = take 500 (firstOccurrences (textLines @ csvLines))
   \<and> totalBeforeCap (stats (mergeInputs textLines csvLines))
       = length (firstOccurrences (textLines @ csvLines))
   \<and> capped (stats (mergeInputs textLines csvLines))
       = (500 < totalBeforeCap (stats (mergeInputs textLines csvLines)))
   \<and> length (merged (mergeInputs textLines csvLines))
       = min (totalBeforeCap (stats (mergeInputs textLines csvLines))) 500
   \<and> subseq (firstOccurrences (textLines @ csvLines)) (textLines @ csvLines)
   \<and> distinct (map dedupKey (firstOccurrences (textLines @ csvLines)))
   \<and> (length (textLines @ csvLines) = 600 \<and> distinct (map dedupKey (textLines @ csvLines))
        \<and> [] \<notin> set (map dedupKey (textLines @ csvLines))
       \<longrightarrow> length (merged (mergeInputs textLines csvLines)) = 500
         \<and> capped (stats (mergeInputs textLines csvLines))
         \<and> totalBeforeCap (stats (mergeInputs textLines csvLines)) = 600)"
proof -
  define xs where "xs = textLines @ csvLines"
  define r where "r = mergeInputs textLines csvLines"
  have m: "merged r = take 500 (firstOccurrences xs)"
    and t: "totalBeforeCap (stats r) = length (firstOccurrences xs)"
    and c: "capped (stats r) = (500 < length (firstOccurrences xs))"
    unfolding r_def xs_def by (rule mergeInputs_unique)+
  have len: "length (merged r) = min (totalBeforeCap (stats r)) 500"
    by (simp add: m t)
  have full: "length (merged r) = 500 \<and> capped (stats r) \<and> totalBeforeCap (stats r) = 600"
    if "length xs = 600" and "distinct (map dedupKey xs)" and "[] \<notin> set (map dedupKey xs)"
  proof -
    from that(2,3) have "firstOccurrences xs = xs"
      by (rule firstOccurrences_distinct)
    with that(1) show ?thesis
      by (simp add: m t c)
  qed
  have c': "capped (stats r) = (500 < totalBeforeCap (stats r))"
    by (simp add: c t)
  from m t c' len full subseq_firstOccurrences [of xs] distinct_firstOccurrences [of xs]
  have "merged r = take 500 (firstOccurrences xs)
    \<and> totalBeforeCap (stats r) = length (firstOccurrences xs)
    \<and> capped (stats r) = (500 < totalBeforeCap (stats r))
    \<and> length (merged r) = min (totalBeforeCap (stats r)) 500
    \<and> subseq (firstOccurrences xs) xs
    \<and> distinct (map dedupKey (firstOccurrences xs))
    \<and> (length xs = 600 \<and> distinct (map dedupKey xs) \<and> [] \<notin> set (map dedupKey xs)
       \<longrightarrow> length (merged r) = 500 \<and> capped (stats r) \<and> totalBeforeCap (stats r) = 600)"
    by blast
  then show ?thesis
    unfolding r_def xs_def .
qed

theorem mergeInputs_dedup_cap_witness:
  "length (merged (mergeInputs (map (\<lambda>n. replicate (Suc n) CHR ''a'') [0..<600]) [])) = 500
   \<and> capped (stats (mergeInputs (map (\<lambda>n. replicate (Suc n) CHR ''a'') [0..<600]) []))
   \<and> totalBeforeCap (stats (mergeInputs (map (\<lambda>n. replicate (Suc n) CHR ''a'') [0..<600]) []))
       = 600"
proof -
  define ls where "ls = map (\<lambda>n. replicate (Suc n) CHR ''a'') [0..<600]"
  have keys: "map dedupKey ls = ls"
    unfolding ls_def by (simp add: dedupKey_replicate del: replicate_Suc)
  have len: "length (ls @ []) = 600"
    by (simp add: ls_def)
  have "inj_on (\<lambda>n. replicate (Suc n) CHR ''a'') (set [0..<600])"
    by (rule inj_onI) (metis length_replicate old.nat.inject)
  then have "distinct ls"
    unfolding ls_def by (simp add: distinct_map)
  then have d: "distinct (map dedupKey (ls @ []))"
    by (simp add: keys)
  have "[] \<notin> set ls"
    by (auto simp: ls_def)
  then have ne: "[] \<notin> set (map dedupKey (ls @ []))"
    by (simp add: keys)
  from mergeInputs_dedup_cap [of ls "[]"] len d ne
  show ?thesis
    unfolding ls_def by blast
qed

section \<open>The labeled CSV export\<close>

lemma addQuote_cases:
  "addQuote ti m q = (if dedupKey q \<in> set (map fst m) then m else m @ [(dedupKey q, ti)])"
  by (simp add: addQuote_def dedupKey_def Let_def mapHas_iff mapSet_fresh)

lemma map_of_shadowed:
  assumes "k \<in> set (map fst m)"
  shows "map_of (m @ (k, v) # rest) = map_of (m @ rest)"
proof
  fix x
  from assms obtain v' where "map_of m k = Some v'"
    by (metis map_of_eq_None_iff not_None_eq set_map)
  then show "map_of (m @ (k, v) # rest) x = map_of (m @ rest) x"
    by (auto simp: map_add_def split: option.splits)
qed

lemma map_of_addQuotes:
  "map_of (foldl (addQuote ti) m qs) = map_of (m @ map (\<lambda>q. (dedupKey q, ti)) qs)"
proof (induction qs arbitrary: m)
  case Nil
  show ?case by simp
next
  case (Cons q qs)
  show ?case
  proof (cases "dedupKey q \<in> set (map fst m)")
    case True
    then have "addQuote ti m q = m"
      by (simp add: addQuote_cases)
    then have "map_of (foldl (addQuote ti) m (q # qs)) = map_of (m @ map (\<lambda>q. (dedupKey q, ti)) qs)"
      using Cons [of m] by (simp only: foldl_Cons)
    also have "\<dots> = map_of (m @ (dedupKey q, ti) # map (\<lambda>q. (dedupKey q, ti)) qs)"
      using True by (rule map_of_shadowed [symmetric])
    finally show ?thesis
      by (simp only: list.map)
  next
    case False
    then show ?thesis
      using Cons [of "m @ [(dedupKey q, ti)]"] by (simp add: addQuote_cases)
  qed
qed

lemma map_of_addThemes:
  "map_of (foldl addTheme m themes) = map_of (m @ quotePairs themes)"
proof (induction themes arbitrary: m)
  case Nil
  show ?case by (simp add: quotePairs_def)
next
  case (Cons t ts)
  have "map_of (foldl addTheme m (t # ts)) = map_of (addTheme m t @ quotePairs ts)"
    using Cons [of "addTheme m t"] by simp
  also have "\<dots> = map_of (quotePairs ts) ++ map_of (addTheme m t)"
    by simp
  also have "map_of (addTheme m t) = map_of (m @ map (\<lambda>q. (dedupKey q, title t)) (quotes t))"
    unfolding addTheme_def by (rule map_of_addQuotes)
  finally show ?case by (simp add: quotePairs_def)
qed

lemma map_of_const_pairs:
  "map_of (map (\<lambda>q. (f q, c)) qs) k = (if k \<in> set (map f qs) then Some c else None)"
  by (induction qs) auto

lemma map_of_quotePairs:
  "map_of (quotePairs themes) k =
     map_option title (find (\<lambda>t. k \<in> set (map dedupKey (quotes t))) themes)"
proof (induction themes)
  case Nil
  show ?case by (simp add: quotePairs_def)
next
  case (Cons t ts)
  have "quotePairs (t # ts) = map (\<lambda>q. (dedupKey q, title t)) (quotes t) @ quotePairs ts"
    by (simp add: quotePairs_def)
  then show ?case
    using Cons by (simp add: map_add_def map_of_const_pairs split: option.splits)
qed

lemma themeMap_label:
  "mapGet (foldl addTheme [] themes) (trim (toLowerCase line)) = labelOf themes line"
  by (simp add: mapGet_def map_of_addThemes map_of_quotePairs labelOf_def dedupKey_def)

lemma addRow_rowsOf:
  "addRow (foldl addTheme [] themes) acc line = acc @ rowsOf themes line"
  by (simp add: addRow_def Let_def themeMap_label rowsOf_def split: option.splits)

lemma foldl_addRow:
  "foldl (addRow (foldl addTheme [] themes)) acc ls = acc @ concat (map (rowsOf themes) ls)"
  by (induction ls arbitrary: acc) (simp_all add: addRow_rowsOf)

lemma createLabeledCSV_eq:
  "createLabeledCSV ls themes =
     joinWith [newline] (''original_text,theme_title'' # concat (map (rowsOf themes) ls))"
  by (simp add: createLabeledCSV_def Let_def foldl_addRow)

lemma labelOf_earliest:
  assumes "labelOf themes line = Some ti"
  shows "\<exists>i < length themes. title (themes ! i) = ti
     \<and> dedupKey line \<in> set (map dedupKey (quotes (themes ! i)))
     \<and> (\<forall>j < i. dedupKey line \<notin> set (map dedupKey (quotes (themes ! j))))"
  using assms unfolding labelOf_def by (auto simp: find_Some_iff)

lemma labelOf_earliest_index:
  assumes "i < length themes"
    and "dedupKey line \<in> set (map dedupKey (quotes (themes ! i)))"
    and "\<forall>j < i. dedupKey line \<notin> set (map dedupKey (quotes (themes ! j)))"
  shows "labelOf themes line = Some (title (themes ! i))"
proof -
  have "find (\<lambda>t. dedupKey line \<in> set (map dedupKey (quotes t))) themes = Some (themes ! i)"
    unfolding find_Some_iff using assms by blast
  then show ?thesis by (simp add: labelOf_def)
qed

lemma labelOf_none:
  assumes "\<forall>t \<in> set themes. dedupKey line \<notin> set (map dedupKey (quotes t))"
  shows "labelOf themes line = None"
proof -
  have "find (\<lambda>t. dedupKey line \<in> set (map dedupKey (quotes t))) themes = None"
    unfolding find_None_iff using assms by blast
  then show ?thesis by (simp add: labelOf_def)
qed

lemma createLabeledCSV_latin1:
  \<open>createLabeledCSV [[CHR 0xC9, CHR ''t'', CHR 0xE9], ''slow'' @ [CHR 0xA0]]
     [\<lparr>title = ''T'', summary = ''S'', quotes = [[CHR 0xE9, CHR ''t'', CHR 0xE9], ''slow'']\<rparr>]
   = ''original_text,theme_title'' @ [newline]
     @ [dquote, CHR 0xC9, CHR ''t'', CHR 0xE9, dquote] @ '',"T"'' @ [newline]
     @ [dquote] @ ''slow'' @ [CHR 0xA0, dquote] @ '',"T"''\<close>
  by code_simp

text \<open>
  Claim C10 (counterexample). The quote \<open>Slow app\<close> appears in two themes and the earliest
  one has the empty title: the test \<open>if (theme)\<close> fails on the empty string, and the line
  is not labeled at all. The output is the header row alone.
\<close>

theorem createLabeledCSV_empty_title_no_row:
  \<open>createLabeledCSV [''Slow app'']
     [\<lparr>title = '''', summary = ''Slow pages.'', quotes = [''Slow app'']\<rparr>,
      \<lparr>title = ''Other'', summary = ''Other remarks.'', quotes = [''slow app'']\<rparr>]
   = ''original_text,theme_title''\<close>
  by code_simp

text \<open>
  Claim C10 (as amended). The export is the header row followed, in the order of the
  feedback lines, by the rows of each line, joined by line feeds, so it is a function of
  the lines and the themes. A line has at most one row. A line whose lower-cased and
  trimmed key is the key of a quote of some theme has one row, labeled with the title of
  the earliest such theme in theme order, provided that title is not empty: no later theme
  with the same quote key labels the line. A line whose key matches no quote has no row.
\<close>

theorem createLabeledCSV_first_theme_wins:
  "createLabeledCSV ls themes =
     joinWith [newline] (''original_text,theme_title'' # concat (map (rowsOf themes) ls))
   \<and> length (rowsOf themes line) \<le> 1
   \<and> (\<forall>i < length themes.
        dedupKey line \<in> set (map dedupKey (quotes (themes ! i)))
        \<and> (\<forall>j < i. dedupKey line \<notin> set (map dedupKey (quotes (themes ! j))))
        \<and> title (themes ! i) \<noteq> []
        \<longrightarrow> rowsOf themes line = [csvQuote line @ '','' @ csvQuote (title (themes ! i))])
   \<and> ((\<forall>t \<in> set themes. dedupKey line \<notin> set (map dedupKey (quotes t)))
        \<longrightarrow> rowsOf themes line = [])
   \<and> (rowsOf themes line \<noteq> [] \<longrightarrow>
        (\<exists>i < length themes.
           rowsOf themes line = [csvQuote line @ '','' @ csvQuote (title (themes ! i))]
           \<and> dedupKey line \<in> set (map dedupKey (quotes (themes ! i)))
           \<and> (\<forall>j < i. dedupKey line \<notin> set (map dedupKey (quotes (themes ! j))))))"
proof (intro conjI impI allI)
  show "createLabeledCSV ls themes =
     joinWith [newline] (''original_text,theme_title'' # concat (map (rowsOf themes) ls))"
    by (rule createLabeledCSV_eq)
  show "length (rowsOf themes line) \<le> 1"
    by (simp add: rowsOf_def split: option.splits)
  show "rowsOf themes line = [csvQuote line @ '','' @ csvQuote (title (themes ! i))]"
    if "i < length themes"
      and "dedupKey line \<in> set (map dedupKey (quotes (themes ! i)))
        \<and> (\<forall>j < i. dedupKey line \<notin> set (map dedupKey (quotes (themes ! j))))
        \<and> title (themes ! i) \<noteq> []" for i
  proof -
    from that have "labelOf themes line = Some (title (themes ! i))"
      by (intro labelOf_earliest_index) simp_all
    with that(2) show ?thesis by (simp add: rowsOf_def)
  qed
  show "rowsOf themes line = []"
    if "\<forall>t \<in> set themes. dedupKey line \<notin> set (map dedupKey (quotes t))"
    using labelOf_none [OF that] by (simp add: rowsOf_def)
  assume "rowsOf themes line \<noteq> []"
  then obtain ti where l: "labelOf themes line = Some ti"
    and r: "rowsOf themes line = [csvQuote line @ '','' @ csvQuote ti]"
    by (auto simp: rowsOf_def split: option.splits if_splits)
  from labelOf_earliest [OF l] r
  show "\<exists>i < length themes.
      rowsOf themes line = [csvQuote line @ '','' @ csvQuote (title (themes ! i))]
      \<and> dedupKey line \<in> set (map dedupKey (quotes (themes ! i)))
      \<and> (\<forall>j < i. dedupKey line \<notin> set (map dedupKey (quotes (themes ! j))))"
    by auto
qed

lemma export_example:
  \<open>joinWith [newline] (''original_text,theme_title'' #
     concat (map (rowsOf
       [\<lparr>title = ''Speed'', summary = ''Slow pages.'', quotes = [''Slow app'']\<rparr>,
        \<lparr>title = ''Other'', summary = ''Other remarks.'', quotes = ['' slow app'', ''fine'']\<rparr>])
       [''slow app'', ''nothing'', ''Slow App '']))
   = ''original_text,theme_title'' @ [newline] @ ''"slow app","Speed"'' @ [newline]
     @ ''"Slow App ","Speed"''\<close>
  by code_simp

lemma export_key_example:
  "dedupKey ''Slow App '' \<in> set (map dedupKey (quotes
     ([\<lparr>title = ''Speed'', summary = ''Slow pages.'', quotes = [''Slow app'']\<rparr>,
       \<lparr>title = ''Other'', summary = ''Other remarks.'', quotes = ['' slow app'', ''fine'']\<rparr>]
      ! 0)))"
  by code_simp

lemma export_no_key_example:
  "\<forall>t \<in> set [\<lparr>title = ''Speed'', summary = ''Slow pages.'', quotes = [''Slow app'']\<rparr>,
       \<lparr>title = ''Other'', summary = ''Other remarks.'', quotes = ['' slow app'', ''fine'']\<rparr>].
     dedupKey ''nothing'' \<notin> set (map dedupKey (quotes t))"
  by code_simp

lemma export_row_example:
  \<open>[csvQuote ''Slow App '' @ '','' @ csvQuote (title
     ([\<lparr>title = ''Speed'', summary = ''Slow pages.'', quotes = [''Slow app'']\<rparr>,
       \<lparr>title = ''Other'', summary = ''Other remarks.'', quotes = ['' slow app'', ''fine'']\<rparr>]
      ! 0))] = [''"Slow App ","Speed"'']\<close>
  by code_simp

theorem createLabeledCSV_first_theme_wins_witness:
  \<open>createLabeledCSV [''slow app'', ''nothing'', ''Slow App '']
     [\<lparr>title = ''Speed'', summary = ''Slow pages.'', quotes = [''Slow app'']\<rparr>,
      \<lparr>title = ''Other'', summary = ''Other remarks.'', quotes = ['' slow app'', ''fine'']\<rparr>]
   = ''original_text,theme_title'' @ [newline] @ ''"slow app","Speed"'' @ [newline]
     @ ''"Slow App ","Speed"''
   \<and> rowsOf
     [\<lparr>title = ''Speed'', summary = ''Slow pages.'', quotes = [''Slow app'']\<rparr>,
      \<lparr>title = ''Other'', summary = ''Other remarks.'', quotes = ['' slow app'', ''fine'']\<rparr>]
     ''Slow App '' = [''"Slow App ","Speed"'']
   \<and> rowsOf
     [\<lparr>title = ''Speed'', summary = ''Slow pages.'', quotes = [''Slow app'']\<rparr>,
      \<lparr>title = ''Other'', summary = ''Other remarks.'', quotes = ['' slow app'', ''fine'']\<rparr>]
     ''nothing'' = []\<close>
proof -
  define L where "L = [''slow app'', ''nothing'', ''Slow App '']"
  define TH where "TH =
     [\<lparr>title = ''Speed'', summary = ''Slow pages.'', quotes = [''Slow app'']\<rparr>,
      \<lparr>title = ''Other'', summary = ''Other remarks.'', quotes = ['' slow app'', ''fine'']\<rparr>]"
  define l where "l = ''Slow App ''"
  define n where "n = ''nothing''"
  have key: "dedupKey l \<in> set (map dedupKey (quotes (TH ! 0)))"
    unfolding TH_def l_def by (rule export_key_example)
  have ti: "title (TH ! 0) \<noteq> []"
    by (simp add: TH_def)
  have len: "0 < length TH"
    by (simp add: TH_def)
  have nokey: "\<forall>t \<in> set TH. dedupKey n \<notin> set (map dedupKey (quotes t))"
    unfolding TH_def n_def by (rule export_no_key_example)
  from createLabeledCSV_first_theme_wins [of L TH l]
  have out: "createLabeledCSV L TH =
      joinWith [newline] (''original_text,theme_title'' # concat (map (rowsOf TH) L))"
    and first: "\<forall>i < length TH.
        dedupKey l \<in> set (map dedupKey (quotes (TH ! i)))
        \<and> (\<forall>j < i. dedupKey l \<notin> set (map dedupKey (quotes (TH ! j))))
        \<and> title (TH ! i) \<noteq> []
        \<longrightarrow> rowsOf TH l = [csvQuote l @ '','' @ csvQuote (title (TH ! i))]"
    by blast+
  from first len key ti
  have "rowsOf TH l = [csvQuote l @ '','' @ csvQuote (title (TH ! 0))]"
    by simp
  then have row: \<open>rowsOf TH l = [''"Slow App ","Speed"'']\<close>
    unfolding TH_def l_def by (simp only: export_row_example)
  from createLabeledCSV_first_theme_wins [of L TH n] nokey
  have norow: "rowsOf TH n = []"
    by blast
  from out have \<open>createLabeledCSV L TH = ''original_text,theme_title'' @ [newline]
      @ ''"slow app","Speed"'' @ [newline] @ ''"Slow App ","Speed"''\<close>
    unfolding L_def TH_def by (simp only: export_example)
  with row norow show ?thesis
    unfolding L_def TH_def l_def n_def by (intro conjI)
qed

section \<open>The CSV parser\<close>

lemma parseCSVLine_trimmed: "cell \<in> set (parseCSVLine line d) \<Longrightarrow> trim cell = cell"
  by (simp add: parseCSVLine_def parseLoop_tokenize tokenize_trimmed)

lemma headerCell_trimmed:
  "trim cell = cell \<Longrightarrow>
   headerCell cell \<longleftrightarrow> cell \<noteq> [] \<and> length cell < 50 \<and> \<not> list_all isDigit cell"
  by (auto simp: headerCell_def allDigits_def Let_def)

lemma fileRows_trimmed:
  assumes "row \<in> set (fileRows t)" and "cell \<in> set row"
  shows "trim cell = cell"
  using assms by (auto simp: fileRows_def parseCSVLine_trimmed)

lemma parseCSV_fileRows:
  "parseCSV t =
     (if fileRows t = [] then Inl EmptyInput
      else if list_all headerCell (hd (fileRows t)) \<and> 1 < length (fileRows t)
        then Inr \<lparr>rows = tl (fileRows t), headers = Some (hd (fileRows t)),
                  detectedDelimiter = detectDelimiter t\<rparr>
        else Inr \<lparr>rows = fileRows t, headers = None, detectedDelimiter = detectDelimiter t\<rparr>)"
proof -
  have l: "(length (trim line) > 0) = (trim line \<noteq> [])" for line
    by simp
  show ?thesis
    unfolding parseCSV_def fileRows_def Let_def l
    by (simp add: hd_conv_nth drop_Suc)
qed

lemma header_cells:
  assumes "fileRows t \<noteq> []"
  shows "list_all headerCell (hd (fileRows t)) \<longleftrightarrow>
    list_all (\<lambda>cell. cell \<noteq> [] \<and> length cell < 50 \<and> \<not> list_all isDigit cell) (hd (fileRows t))"
proof -
  have "trim cell = cell" if "cell \<in> set (hd (fileRows t))" for cell
    using assms that by (intro fileRows_trimmed [of "hd (fileRows t)" t]) simp_all
  then have "headerCell cell \<longleftrightarrow> cell \<noteq> [] \<and> length cell < 50 \<and> \<not> list_all isDigit cell"
    if "cell \<in> set (hd (fileRows t))" for cell
    using that by (intro headerCell_trimmed)
  then show ?thesis
    by (intro list.pred_cong refl)
qed

lemma parseCSV_no_break_space:
  "parseCSV (''name,'' @ [CHR 0xA0, newline] @ ''Bob,x'')
     = Inr \<lparr>rows = [[''name'', ''''], [''Bob'', ''x'']], headers = None,
            detectedDelimiter = '',''\<rparr>"
  by code_simp

text \<open>
  Claim C7. For every file text with at least one non-blank line, \<open>parseCSV\<close> returns a
  table whose headers are present if and only if every cell of the first row is non-empty,
  shorter than 50 characters and not made of digits only, and the file has more than one
  row; the headers are then the first row and the data rows are the remaining rows, and
  otherwise all rows, the first included, are data rows. A file without a non-blank line
  is rejected with \<open>EmptyInput\<close>.
\<close>

theorem parseCSV_header_detection:
  "(fileRows t = [] \<longrightarrow> parseCSV t = Inl EmptyInput)
   \<and> (fileRows t \<noteq> [] \<longrightarrow>
        (\<exists>r. parseCSV t = Inr r
           \<and> (headers r \<noteq> None \<longleftrightarrow>
                list_all (\<lambda>cell. cell \<noteq> [] \<and> length cell < 50 \<and> \<not> list_all isDigit cell)
                  (hd (fileRows t))
                \<and> 1 < length (fileRows t))
           \<and> (headers r \<noteq> None \<longrightarrow>
                headers r = Some (hd (fileRows t)) \<and> rows r = tl (fileRows t))
           \<and> (headers r = None \<longrightarrow> rows r = fileRows t)))"
proof (intro conjI impI)
  assume "fileRows t = []"
  then show "parseCSV t = Inl EmptyInput"
    by (simp add: parseCSV_fileRows)
next
  assume ne: "fileRows t \<noteq> []"
  show "\<exists>r. parseCSV t = Inr r
           \<and> (headers r \<noteq> None \<longleftrightarrow>
                list_all (\<lambda>cell. cell \<noteq> [] \<and> length cell < 50 \<and> \<not> list_all isDigit cell)
                  (hd (fileRows t))
                \<and> 1 < length (fileRows t))
           \<and> (headers r \<noteq> None \<longrightarrow>
                headers r = Some (hd (fileRows t)) \<and> rows r = tl (fileRows t))
           \<and> (headers r = None \<longrightarrow> rows r = fileRows t)"
  proof (cases "list_all headerCell (hd (fileRows t)) \<and> 1 < length (fileRows t)")
    case True
    then have "parseCSV t = Inr \<lparr>rows = tl (fileRows t), headers = Some (hd (fileRows t)),
                  detectedDelimiter = detectDelimiter t\<rparr>"
      using ne by (simp add: parseCSV_fileRows)
    with True header_cells [OF ne] show ?thesis by simp
  next
    case False
    then have "parseCSV t = Inr \<lparr>rows = fileRows t, headers = None,
        detectedDelimiter = detectDelimiter t\<rparr>"
      using ne by (auto simp: parseCSV_fileRows)
    with False header_cells [OF ne] show ?thesis by auto
  qed
qed

lemma fileRows_example:
  "fileRows (''name,comment'' @ [newline] @ ''Bob,Great app'')
     = [[''name'', ''comment''], [''Bob'', ''Great app'']]"
  by code_simp

lemma header_example:
  "list_all (\<lambda>cell. cell \<noteq> [] \<and> length cell < 50 \<and> \<not> list_all isDigit cell)
     [''name'', ''comment'']"
  by code_simp

lemma fileRows_blank: "fileRows ('' '' @ [newline]) = []"
  by code_simp

theorem parseCSV_header_detection_witness:
  "fileRows (''name,comment'' @ [newline] @ ''Bob,Great app'') \<noteq> []
   \<and> (\<exists>r. parseCSV (''name,comment'' @ [newline] @ ''Bob,Great app'') = Inr r
        \<and> headers r = Some [''name'', ''comment''] \<and> rows r = [[''Bob'', ''Great app'']])
   \<and> fileRows ('' '' @ [newline]) = []
   \<and> parseCSV ('' '' @ [newline]) = Inl EmptyInput"
proof -
  define T where "T = ''name,comment'' @ [newline] @ ''Bob,Great app''"
  define B where "B = '' '' @ [newline]"
  have fr: "fileRows T = [[''name'', ''comment''], [''Bob'', ''Great app'']]"
    unfolding T_def by (rule fileRows_example)
  then have ne: "fileRows T \<noteq> []"
    by simp
  have hdr: "list_all (\<lambda>cell. cell \<noteq> [] \<and> length cell < 50 \<and> \<not> list_all isDigit cell)
      (hd (fileRows T)) \<and> 1 < length (fileRows T)"
    using header_example by (simp add: fr)
  from parseCSV_header_detection [of T] ne obtain r where r: "parseCSV T = Inr r"
    "headers r \<noteq> None \<longleftrightarrow>
       list_all (\<lambda>cell. cell \<noteq> [] \<and> length cell < 50 \<and> \<not> list_all isDigit cell)
         (hd (fileRows T)) \<and> 1 < length (fileRows T)"
    "headers r \<noteq> None \<longrightarrow> headers r = Some (hd (fileRows T)) \<and> rows r = tl (fileRows T)"
    by blast
  from r(2) hdr have "headers r \<noteq> None"
    by blast
  with r(3) have "headers r = Some [''name'', ''comment''] \<and> rows r = [[''Bob'', ''Great app'']]"
    by (simp add: fr)
  with r(1) have ex: "\<exists>r. parseCSV T = Inr r
      \<and> headers r = Some [''name'', ''comment''] \<and> rows r = [[''Bob'', ''Great app'']]"
    by blast
  have blank: "fileRows B = []"
    unfolding B_def by (rule fileRows_blank)
  with parseCSV_header_detection [of B] have "parseCSV B = Inl EmptyInput"
    by blast
  with ne ex blank show ?thesis
    unfolding T_def B_def by (intro conjI)
qed

section \<open>The column selector\<close>

lemma foldl_sampleStep:
  "foldl (sampleStep j) (t, a, v) rs =
     (t + sum_list (map length (map (\<lambda>row. row ! j) (filter (\<lambda>row. j < length row \<and> row ! j \<noteq> []) rs))),
      a + sum_list (map (\<lambda>cell. length (filter isAlpha cell))
            (map (\<lambda>row. row ! j) (filter (\<lambda>row. j < length row \<and> row ! j \<noteq> []) rs))),
      v + length (filter (\<lambda>row. j < length row \<and> row ! j \<noteq> []) rs))"
  by (induction rs arbitrary: t a v) (simp_all add: sampleStep_def truthyCell_def Let_def)

lemma columnScore_specScore: "columnScore ops rs j = specScore ops rs j"
proof -
  have s: "slice 0 (min 10 (length rs)) rs = take 10 rs"
    by (simp add: slice_def min_def)
  show ?thesis
    unfolding columnScore_def specScore_def s Let_def foldl_sampleStep sampledCells_def averageOf_def
    by (auto simp: filter_empty_conv)
qed

lemma indexFrom_first:
  assumes "y \<in> set xs"
  shows "\<exists>i < length xs. indexFrom k xs y = int (k + i) \<and> xs ! i = y \<and> (\<forall>j < i. xs ! j \<noteq> y)"
  using assms
proof (induction xs arbitrary: k)
  case Nil
  then show ?case by simp
next
  case (Cons x xs)
  show ?case
  proof (cases "x = y")
    case True
    then show ?thesis by (intro exI [of _ 0]) simp
  next
    case False
    with Cons.prems have "y \<in> set xs" by simp
    from Cons.IH [OF this, of "k + 1"] obtain i where i: "i < length xs"
      "indexFrom (k + 1) xs y = int (k + 1 + i)" "xs ! i = y" "\<forall>j < i. xs ! j \<noteq> y"
      by blast
    have "\<forall>j < Suc i. (x # xs) ! j \<noteq> y"
      using False i(4) by (auto simp: nth_Cons split: nat.splits)
    with i False show ?thesis
      by (intro exI [of _ "Suc i"]) simp
  qed
qed

lemma foldl_max: "foldl max (s :: 'a :: linorder) ss = Max (set (s # ss))"
proof -
  have "(\<lambda>x a. max a x) = (max :: 'a \<Rightarrow> 'a \<Rightarrow> 'a)"
    by (intro ext) (rule max.commute)
  then show ?thesis
    by (simp only: Max.set_eq_fold foldl_conv_fold)
qed

lemma scores_nth:
  "j < n \<Longrightarrow> map (\<lambda>colIndex. columnScore ops rs colIndex) [0..<n] ! j = specScore ops rs j"
  by (simp add: columnScore_specScore)

text \<open>
  Claim C8. Without headers, or with an empty header list, \<open>chooseTextColumn\<close> returns
  column 0. Otherwise it returns an index \<open>i\<close> of a header such that no column has a score
  above the score of \<open>i\<close> and every column before \<open>i\<close> has a strictly smaller score: the
  first index attaining the maximum. The score of a column is \<open>specScore\<close>: \<open>0.7\<close> times
  the average length plus \<open>0.3\<close> times the average number of letters of its non-empty
  cells among the first ten rows, and \<open>0\<close> when it has no such cell. The statement holds
  for every arithmetic of the scores on a linearly ordered type.
\<close>

theorem chooseTextColumn_first_max:
  fixes ops :: "('f::linorder) arith"
  shows "chooseTextColumn ops None sampleRows = 0
    \<and> chooseTextColumn ops (Some []) sampleRows = 0
    \<and> (hs \<noteq> [] \<longrightarrow>
         (\<exists>i < length hs. chooseTextColumn ops (Some hs) sampleRows = int i
            \<and> (\<forall>j < length hs. specScore ops sampleRows j \<le> specScore ops sampleRows i)
            \<and> (\<forall>j < i. specScore ops sampleRows j < specScore ops sampleRows i)))
    \<and> (sampledCells sampleRows j = [] \<longrightarrow> specScore ops sampleRows j = ofNat ops 0)"
proof (intro conjI impI)
  show "chooseTextColumn ops None sampleRows = 0"
    by (simp add: chooseTextColumn_def)
  show "chooseTextColumn ops (Some []) sampleRows = 0"
    by (simp add: chooseTextColumn_def)
  show "specScore ops sampleRows j = ofNat ops 0" if "sampledCells sampleRows j = []"
    using that by (simp add: specScore_def)
  assume hs: "hs \<noteq> []"
  define scores where
    "scores = map (\<lambda>colIndex. columnScore ops sampleRows colIndex) [0..<length hs]"
  have len: "length scores = length hs"
    by (simp add: scores_def)
  have nth: "scores ! j = specScore ops sampleRows j" if "j < length hs" for j
    unfolding scores_def using that by (rule scores_nth)
  from hs len obtain s ss where sc: "scores = s # ss"
    by (cases scores) auto
  have "chooseTextColumn ops (Some hs) sampleRows =
      (case scores of [] \<Rightarrow> - 1 | s # ss \<Rightarrow> indexOf scores (foldl max s ss))"
    using hs unfolding chooseTextColumn_def scores_def Let_def by simp
  also have "\<dots> = indexFrom 0 scores (Max (set scores))"
    by (simp only: sc list.case indexOf_def foldl_max)
  finally have run:
    "chooseTextColumn ops (Some hs) sampleRows = indexFrom 0 scores (Max (set scores))" .
  have "Max (set scores) \<in> set scores"
    using sc by (intro Max_in) simp_all
  from indexFrom_first [OF this, of 0] obtain i where i: "i < length scores"
    "indexFrom 0 scores (Max (set scores)) = int i" "scores ! i = Max (set scores)"
    "\<forall>j < i. scores ! j \<noteq> Max (set scores)"
    by auto
  have le: "scores ! j \<le> scores ! i" if "j < length scores" for j
    using that by (simp add: i(3))
  have less: "scores ! j < scores ! i" if "j < i" for j
  proof -
    from that i(1) have "j < length scores" by simp
    then have "scores ! j \<le> scores ! i" by (rule le)
    moreover from that i(4) have "scores ! j \<noteq> scores ! i" by (simp add: i(3))
    ultimately show ?thesis by simp
  qed
  show "\<exists>i < length hs. chooseTextColumn ops (Some hs) sampleRows = int i
      \<and> (\<forall>j < length hs. specScore ops sampleRows j \<le> specScore ops sampleRows i)
      \<and> (\<forall>j < i. specScore ops sampleRows j < specScore ops sampleRows i)"
  proof (intro exI [of _ i] conjI allI impI)
    show "i < length hs" using i(1) len by simp
    show "chooseTextColumn ops (Some hs) sampleRows = int i" using run i(2) by simp
    show "specScore ops sampleRows j \<le> specScore ops sampleRows i" if "j < length hs" for j
      using le [of j] that i(1) len by (simp add: nth)
    show "specScore ops sampleRows j < specScore ops sampleRows i" if "j < i" for j
      using less [OF that] that i(1) len by (simp add: nth)
  qed
qed

lemma selector_examples:
  "chooseTextColumn exactOps (Some [''id'', ''feedback''])
     [[''1'', ''The app is slow''], [''22'', ''Love it'']] = 1"
  "chooseTextColumn exactOps (Some [''feedback'', ''code''])
     [[''The app is slow'', ''A1''], [''Love it'', ''B22'']] = 0"
  by code_simp+

theorem chooseTextColumn_first_max_witness:
  "[''id'', ''feedback''] \<noteq> []
   \<and> (\<exists>i < length [''id'', ''feedback''].
        chooseTextColumn exactOps (Some [''id'', ''feedback''])
          [[''1'', ''The app is slow''], [''22'', ''Love it'']] = int i
        \<and> (\<forall>j < i. specScore exactOps [[''1'', ''The app is slow''], [''22'', ''Love it'']] j
              < specScore exactOps [[''1'', ''The app is slow''], [''22'', ''Love it'']] i))
   \<and> chooseTextColumn exactOps (Some [''id'', ''feedback''])
        [[''1'', ''The app is slow''], [''22'', ''Love it'']] = 1
   \<and> chooseTextColumn exactOps (Some [''feedback'', ''code''])
        [[''The app is slow'', ''A1''], [''Love it'', ''B22'']] = 0"
proof -
  define hs where "hs = [''id'', ''feedback'']"
  define rs where "rs = [[''1'', ''The app is slow''], [''22'', ''Love it'']]"
  have ne: "hs \<noteq> []"
    by (simp add: hs_def)
  from chooseTextColumn_first_max [of exactOps rs hs 0] ne
  have "\<exists>i < length hs. chooseTextColumn exactOps (Some hs) rs = int i
      \<and> (\<forall>j < i. specScore exactOps rs j < specScore exactOps rs i)"
    by blast
  with ne selector_examples show ?thesis
    unfolding hs_def rs_def by (intro conjI)
qed

end
